theory Spec2Isabelle
  imports Main "HOL-Library.AList"
begin

section \<open>The donation lifecycle of filasolidaria\<close>

text \<open>
  A shallow embedding of \<^verbatim>\<open>DonationService\<close> (donation.service.ts), of the three
  repositories it drives (\<^verbatim>\<open>DonationRepository\<close>, \<^verbatim>\<open>CandidacyRepository\<close>,
  \<^verbatim>\<open>DonationProgressRepository\<close>) and of \<^verbatim>\<open>getObjectDifferences\<close> (utils/helpers.ts).

  The database behind Prisma is an explicit value of type \<open>db\<close>. Every repository method
  and every service method is a function from the database to an outcome and the database
  it leaves behind. The service runs its writes one after the other with no transaction,
  so a method that throws half way returns the database as the writes before the throw
  left it; that is why the database is returned beside an \<open>Inl\<close> as well.

  Identifiers (MongoDB ObjectIds, strings in the source) are only ever compared for
  equality; they are natural numbers here, and the store hands out \<open>nextObjectId\<close>.
  Timestamps (\<^verbatim>\<open>createdAt\<close>, \<^verbatim>\<open>editedAt\<close>) are not modelled: lists keep creation order.
\<close>

subsection \<open>Data model\<close>

type_synonym objectId = nat

datatype donationStatus = OPEN | IN_PROGRESS | PICKED_UP | COMPLETED

text \<open>The keys of \<^verbatim>\<open>CreateDonationData\<close> and \<^verbatim>\<open>UpdateDonationData\<close>.\<close>

datatype field =
  Title | Description | PickupType | PostalCode | Street
  | LocationNumber | Neighborhood | City | State | Category

text \<open>
  The classes of AppError.ts, and the two known request errors Prisma raises on the
  operations used here: P2025 (record to update or delete not found) and P2002 (unique
  constraint).
\<close>

datatype error =
  NotFoundError | UnauthorizedError | ForbiddenError | ConflictError
  | ValidationError | InternalServerError | PrismaP2025 | PrismaP2002

record donation =
  donation_id :: objectId
  sequentialId :: nat
  attrs :: "field \<Rightarrow> string"
  status :: donationStatus
  returnReason :: "string option"
  donorId :: objectId
  receiverId :: "objectId option"

record candidacy =
  candidacy_id :: objectId
  cand_donationId :: objectId
  cand_userId :: objectId

record donationProgress =
  pickupConfirmedByDonor :: bool
  pickupConfirmedByReceiver :: bool
  completionConfirmedByDonor :: bool
  completionConfirmedByReceiver :: bool
  returnSignaledByReceiver :: bool
  returnConfirmedByDonor :: bool
  returnConfirmedByReceiver :: bool

text \<open>
  \<^verbatim>\<open>Partial<Omit<DonationProgress, "id" | "donationId">>\<close>, the argument of the progress
  repository's \<^verbatim>\<open>update\<close>: \<open>None\<close> is a key that is absent (or \<^verbatim>\<open>undefined\<close>), which Prisma
  leaves alone.
\<close>

record progressData =
  data_pickupConfirmedByDonor :: "bool option"
  data_pickupConfirmedByReceiver :: "bool option"
  data_completionConfirmedByDonor :: "bool option"
  data_completionConfirmedByReceiver :: "bool option"
  data_returnSignaledByReceiver :: "bool option"
  data_returnConfirmedByDonor :: "bool option"
  data_returnConfirmedByReceiver :: "bool option"

text \<open>
  The \<^verbatim>\<open>updates\<close> parameter of \<^verbatim>\<open>updateProgress\<close>: six optional booleans. The route parses
  the body with \<^verbatim>\<open>updateProgressSchema\<close>, which has the same six keys and strips every
  other one.
\<close>

record progressUpdates =
  upd_pickupConfirmedByDonor :: "bool option"
  upd_pickupConfirmedByReceiver :: "bool option"
  upd_completionConfirmedByDonor :: "bool option"
  upd_completionConfirmedByReceiver :: "bool option"
  upd_returnConfirmedByDonor :: "bool option"
  upd_returnConfirmedByReceiver :: "bool option"

text \<open>One entry of the result of \<^verbatim>\<open>getObjectDifferences\<close>; \<open>None\<close> is \<^verbatim>\<open>undefined\<close>.\<close>

record 'v change =
  oldValue :: "'v option"
  newValue :: "'v option"

record donationEditHistory =
  hist_donationId :: objectId
  changedFields :: "(field \<times> string change) list"

record db =
  users :: "objectId set"
  counter :: "nat option"
  nextObjectId :: objectId
  donations :: "objectId \<rightharpoonup> donation"
  candidacies :: "candidacy list"
  progress :: "objectId \<rightharpoonup> donationProgress"
  editHistory :: "donationEditHistory list"

type_synonym 'a action = "db \<Rightarrow> (error + 'a) \<times> db"

text \<open>\<^verbatim>\<open>await\<close> in sequence: a throw skips the rest, the database stays as it is then.\<close>

definition andThen :: "'a action \<Rightarrow> ('a \<Rightarrow> 'b action) \<Rightarrow> 'b action" where
  "andThen m f s = (case m s of (Inl e, s') \<Rightarrow> (Inl e, s') | (Inr x, s') \<Rightarrow> f x s')"

definition succeed :: "'a \<Rightarrow> 'a action" where
  "succeed x s = (Inr x, s)"

definition throw :: "error \<Rightarrow> 'a action" where
  "throw e s = (Inl e, s)"

subsection \<open>utils/helpers.ts\<close>

text \<open>
  \<^verbatim>\<open>getObjectDifferences(oldObj, newObj)\<close>. The old object is its lookup function
  (\<open>None\<close> for \<^verbatim>\<open>undefined\<close>); the new object is the list of its own keys in \<^verbatim>\<open>for ... in\<close>
  order, each with its value. The result keeps insertion order, as a JavaScript object
  does; \<^verbatim>\<open>differences[key] = ...\<close> is \<open>AList.update\<close>.
\<close>

definition getObjectDifferences ::
  "('k \<Rightarrow> 'v option) \<Rightarrow> ('k \<times> 'v option) list \<Rightarrow> ('k \<times> 'v change) list" where
  "getObjectDifferences oldObj newObj =
     fold (\<lambda>(key, nv) differences.
             if nv \<noteq> None \<and> oldObj key \<noteq> nv
             then AList.update key \<lparr>oldValue = oldObj key, newValue = nv\<rparr> differences
             else differences)
          newObj []"

subsection \<open>DonationRepository\<close>

definition getNextSequentialId :: "nat action" where
  "getNextSequentialId s =
     (let v = (case counter s of None \<Rightarrow> 1 | Some n \<Rightarrow> n + 1)
      in (Inr v, s\<lparr>counter := Some v\<rparr>))"

definition donationRepository_create :: "objectId \<Rightarrow> (field \<Rightarrow> string) \<Rightarrow> donation action" where
  "donationRepository_create donor data =
     andThen getNextSequentialId (\<lambda>seqId s.
       let d = \<lparr>donation_id = nextObjectId s, sequentialId = seqId, attrs = data,
                status = OPEN, returnReason = None, donorId = donor, receiverId = None\<rparr>
       in (Inr d, s\<lparr>donations := (donations s)(nextObjectId s \<mapsto> d),
                     nextObjectId := Suc (nextObjectId s)\<rparr>))"

definition donationRepository_findById :: "objectId \<Rightarrow> donation option action" where
  "donationRepository_findById i s = (Inr (donations s i), s)"

text \<open>
  \<^verbatim>\<open>prisma.donation.update({ where: { id }, data })\<close>: the data is the change it makes to
  the record; a missing record is P2025.
\<close>

definition prisma_donation_update :: "objectId \<Rightarrow> (donation \<Rightarrow> donation) \<Rightarrow> donation action" where
  "prisma_donation_update i change s =
     (case donations s i of
        None \<Rightarrow> (Inl PrismaP2025, s)
      | Some d \<Rightarrow> (Inr (change d), s\<lparr>donations := (donations s)(i \<mapsto> change d)\<rparr>))"

text \<open>Writing an \<^verbatim>\<open>UpdateDonationData\<close>: keys whose value is \<^verbatim>\<open>undefined\<close> are skipped.\<close>

definition writeFields :: "(field \<times> string option) list \<Rightarrow> (field \<Rightarrow> string) \<Rightarrow> (field \<Rightarrow> string)" where
  "writeFields data f =
     fold (\<lambda>(key, nv) g. case nv of None \<Rightarrow> g | Some v \<Rightarrow> g(key := v)) data f"

definition donationRepository_update :: "objectId \<Rightarrow> (field \<times> string option) list \<Rightarrow> donation action" where
  "donationRepository_update i data = prisma_donation_update i (\<lambda>d. d\<lparr>attrs := writeFields data (attrs d)\<rparr>)"

text \<open>
  Modelled from the spec: the Prisma schema (not among the sources) declares
  \<^verbatim>\<open>onDelete: Cascade\<close>; deleting a donation takes its candidacies, its progress record
  and its edit history with it.
\<close>

definition donationRepository_delete :: "objectId \<Rightarrow> unit action" where
  "donationRepository_delete i s =
     (case donations s i of
        None \<Rightarrow> (Inl PrismaP2025, s)
      | Some d \<Rightarrow>
          (Inr (), s\<lparr>donations := (donations s)(i := None),
                     candidacies := filter (\<lambda>c. cand_donationId c \<noteq> i) (candidacies s),
                     progress := (progress s)(i := None),
                     editHistory := filter (\<lambda>h. hist_donationId h \<noteq> i) (editHistory s)\<rparr>))"

definition saveDonationEditHistory ::
  "objectId \<Rightarrow> (field \<times> string change) list \<Rightarrow> donationEditHistory action" where
  "saveDonationEditHistory i changed s =
     (let h = \<lparr>hist_donationId = i, changedFields = changed\<rparr>
      in (Inr h, s\<lparr>editHistory := editHistory s @ [h]\<rparr>))"

definition getDonationEditHistory :: "objectId \<Rightarrow> donationEditHistory list action" where
  "getDonationEditHistory i s = (Inr (rev (filter (\<lambda>h. hist_donationId h = i) (editHistory s))), s)"

definition updateStatus :: "objectId \<Rightarrow> donationStatus \<Rightarrow> donation action" where
  "updateStatus i st = prisma_donation_update i (\<lambda>d. d\<lparr>status := st\<rparr>)"

definition setReceiver :: "objectId \<Rightarrow> objectId \<Rightarrow> donation action" where
  "setReceiver i receiver =
     prisma_donation_update i (\<lambda>d. d\<lparr>receiverId := Some receiver, status := IN_PROGRESS\<rparr>)"

definition removeReceiver :: "objectId \<Rightarrow> donation action" where
  "removeReceiver i =
     prisma_donation_update i (\<lambda>d. d\<lparr>receiverId := None, status := OPEN, returnReason := None\<rparr>)"

definition updateReturnReason :: "objectId \<Rightarrow> string \<Rightarrow> donation action" where
  "updateReturnReason i reason = prisma_donation_update i (\<lambda>d. d\<lparr>returnReason := Some reason\<rparr>)"

subsection \<open>CandidacyRepository\<close>

definition candidacyRepository_findByDonationAndUser :: "objectId \<Rightarrow> objectId \<Rightarrow> candidacy option action" where
  "candidacyRepository_findByDonationAndUser i u s =
     (Inr (find (\<lambda>c. cand_donationId c = i \<and> cand_userId c = u) (candidacies s)), s)"

text \<open>
  Modelled from the spec: the unique constraint on (donationId, userId) is declared in the
  Prisma schema (not among the sources); a second candidacy for the pair is P2002.
\<close>

definition candidacyRepository_create :: "objectId \<Rightarrow> objectId \<Rightarrow> candidacy action" where
  "candidacyRepository_create i u s =
     (if find (\<lambda>c. cand_donationId c = i \<and> cand_userId c = u) (candidacies s) \<noteq> None
      then (Inl PrismaP2002, s)
      else let c = \<lparr>candidacy_id = nextObjectId s, cand_donationId = i, cand_userId = u\<rparr>
           in (Inr c, s\<lparr>candidacies := candidacies s @ [c],
                         nextObjectId := Suc (nextObjectId s)\<rparr>))"

definition candidacyRepository_findByDonation :: "objectId \<Rightarrow> candidacy list action" where
  "candidacyRepository_findByDonation i s = (Inr (filter (\<lambda>c. cand_donationId c = i) (candidacies s)), s)"

definition candidacyRepository_delete :: "objectId \<Rightarrow> unit action" where
  "candidacyRepository_delete cid s =
     (if find (\<lambda>c. candidacy_id c = cid) (candidacies s) = None
      then (Inl PrismaP2025, s)
      else (Inr (), s\<lparr>candidacies := filter (\<lambda>c. candidacy_id c \<noteq> cid) (candidacies s)\<rparr>))"

definition deleteAllByDonation :: "objectId \<Rightarrow> nat action" where
  "deleteAllByDonation i s =
     (Inr (length (filter (\<lambda>c. cand_donationId c = i) (candidacies s))),
      s\<lparr>candidacies := filter (\<lambda>c. cand_donationId c \<noteq> i) (candidacies s)\<rparr>)"

subsection \<open>DonationProgressRepository\<close>

text \<open>
  Modelled from the spec: the Prisma schema (not among the sources) gives every flag the
  default \<^verbatim>\<open>false\<close> and makes \<^verbatim>\<open>donationId\<close> unique, so a second record for a donation is
  P2002.
\<close>

definition progressRepository_create :: "objectId \<Rightarrow> donationProgress action" where
  "progressRepository_create i s =
     (case progress s i of
        Some p \<Rightarrow> (Inl PrismaP2002, s)
      | None \<Rightarrow>
          let p = \<lparr>pickupConfirmedByDonor = False, pickupConfirmedByReceiver = False,
                   completionConfirmedByDonor = False, completionConfirmedByReceiver = False,
                   returnSignaledByReceiver = False, returnConfirmedByDonor = False,
                   returnConfirmedByReceiver = False\<rparr>
          in (Inr p, s\<lparr>progress := (progress s)(i \<mapsto> p)\<rparr>))"

definition findByDonation :: "objectId \<Rightarrow> donationProgress option action" where
  "findByDonation i s = (Inr (progress s i), s)"

definition orElse :: "'a option \<Rightarrow> 'a \<Rightarrow> 'a" where
  "orElse x d = (case x of None \<Rightarrow> d | Some v \<Rightarrow> v)"

definition writeProgress :: "progressData \<Rightarrow> donationProgress \<Rightarrow> donationProgress" where
  "writeProgress data p =
     \<lparr>pickupConfirmedByDonor = orElse (data_pickupConfirmedByDonor data) (pickupConfirmedByDonor p),
      pickupConfirmedByReceiver = orElse (data_pickupConfirmedByReceiver data) (pickupConfirmedByReceiver p),
      completionConfirmedByDonor = orElse (data_completionConfirmedByDonor data) (completionConfirmedByDonor p),
      completionConfirmedByReceiver = orElse (data_completionConfirmedByReceiver data) (completionConfirmedByReceiver p),
      returnSignaledByReceiver = orElse (data_returnSignaledByReceiver data) (returnSignaledByReceiver p),
      returnConfirmedByDonor = orElse (data_returnConfirmedByDonor data) (returnConfirmedByDonor p),
      returnConfirmedByReceiver = orElse (data_returnConfirmedByReceiver data) (returnConfirmedByReceiver p)\<rparr>"

definition progressRepository_update :: "objectId \<Rightarrow> progressData \<Rightarrow> donationProgress action" where
  "progressRepository_update i data s =
     (case progress s i of
        None \<Rightarrow> (Inl PrismaP2025, s)
      | Some p \<Rightarrow> (Inr (writeProgress data p), s\<lparr>progress := (progress s)(i \<mapsto> writeProgress data p)\<rparr>))"

definition progressRepository_delete :: "objectId \<Rightarrow> unit action" where
  "progressRepository_delete i s =
     (case progress s i of
        None \<Rightarrow> (Inl PrismaP2025, s)
      | Some p \<Rightarrow> (Inr (), s\<lparr>progress := (progress s)(i := None)\<rparr>))"

definition isReturnCompleted :: "objectId \<Rightarrow> bool action" where
  "isReturnCompleted i =
     andThen (findByDonation i) (\<lambda>found.
       case found of
         None \<Rightarrow> succeed False
       | Some p \<Rightarrow> succeed (returnSignaledByReceiver p \<and> returnConfirmedByDonor p
                             \<and> returnConfirmedByReceiver p))"

definition canSignalReturn :: "objectId \<Rightarrow> bool action" where
  "canSignalReturn i =
     andThen (findByDonation i) (\<lambda>found.
       case found of
         None \<Rightarrow> succeed False
       | Some p \<Rightarrow> succeed (pickupConfirmedByDonor p \<and> pickupConfirmedByReceiver p))"

text \<open>The six-key object of the service, seen as the repository's partial record.\<close>

definition asProgressData :: "progressUpdates \<Rightarrow> progressData" where
  "asProgressData u =
     \<lparr>data_pickupConfirmedByDonor = upd_pickupConfirmedByDonor u,
      data_pickupConfirmedByReceiver = upd_pickupConfirmedByReceiver u,
      data_completionConfirmedByDonor = upd_completionConfirmedByDonor u,
      data_completionConfirmedByReceiver = upd_completionConfirmedByReceiver u,
      data_returnSignaledByReceiver = None,
      data_returnConfirmedByDonor = upd_returnConfirmedByDonor u,
      data_returnConfirmedByReceiver = upd_returnConfirmedByReceiver u\<rparr>"

definition noProgressData :: progressData where
  "noProgressData =
     \<lparr>data_pickupConfirmedByDonor = None, data_pickupConfirmedByReceiver = None,
      data_completionConfirmedByDonor = None, data_completionConfirmedByReceiver = None,
      data_returnSignaledByReceiver = None, data_returnConfirmedByDonor = None,
      data_returnConfirmedByReceiver = None\<rparr>"

subsection \<open>UserRepository\<close>

definition userRepository_findById :: "objectId \<Rightarrow> bool action" where
  "userRepository_findById u s = (Inr (u \<in> users s), s)"

subsection \<open>DonationService\<close>

text \<open>The \<^verbatim>\<open>{ message: ... }\<close> objects the service returns, by what they say.\<close>

datatype message =
  CandidacyWithdrawn | ReceivingCancelled | ReturnSignaled
  | ReturnCompleted | ConfirmationRegistered

text \<open>JavaScript truthiness of an optional boolean: \<^verbatim>\<open>undefined\<close> and \<^verbatim>\<open>false\<close> are falsy.\<close>

definition truthy :: "bool option \<Rightarrow> bool" where
  "truthy x = (x = Some True)"

definition createDonation :: "objectId \<Rightarrow> (field \<Rightarrow> string) \<Rightarrow> donation action" where
  "createDonation donor data =
     andThen (userRepository_findById donor) (\<lambda>userExists.
       if \<not> userExists then throw NotFoundError
       else donationRepository_create donor data)"

text \<open>
  \<^verbatim>\<open>getDonation\<close> returns the donation with its progress record. With a receiver the
  record is read again through the progress repository; without one the donation is
  returned as \<^verbatim>\<open>findById\<close> loaded it, and \<^verbatim>\<open>findById\<close> includes the progress relation.
\<close>

definition getDonation :: "objectId \<Rightarrow> (donation \<times> donationProgress option) action" where
  "getDonation donationId =
     andThen (donationRepository_findById donationId) (\<lambda>found.
       case found of
         None \<Rightarrow> throw NotFoundError
       | Some don \<Rightarrow>
           if receiverId don \<noteq> None
           then andThen (findByDonation donationId) (\<lambda>prog. succeed (don, prog))
           else (\<lambda>s. (Inr (don, progress s donationId), s)))"

text \<open>The stored donation as the object \<^verbatim>\<open>getObjectDifferences\<close> reads by key.\<close>

definition donationObject :: "donation \<Rightarrow> field \<Rightarrow> string option" where
  "donationObject don key = Some (attrs don key)"

definition updateDonation ::
  "objectId \<Rightarrow> objectId \<Rightarrow> (field \<times> string option) list \<Rightarrow> donation action" where
  "updateDonation donationId userId data =
     andThen (donationRepository_findById donationId) (\<lambda>found.
       case found of
         None \<Rightarrow> throw NotFoundError
       | Some don \<Rightarrow>
           if donorId don \<noteq> userId then throw ForbiddenError
           else if status don \<noteq> OPEN then throw ValidationError
           else let changed = getObjectDifferences (donationObject don) data
                in if length changed = 0 then succeed don
                   else andThen (donationRepository_update donationId data) (\<lambda>updatedDonation.
                        andThen (saveDonationEditHistory donationId changed) (\<lambda>_.
                        succeed updatedDonation)))"

definition deleteDonation :: "objectId \<Rightarrow> objectId \<Rightarrow> unit action" where
  "deleteDonation donationId userId =
     andThen (donationRepository_findById donationId) (\<lambda>found.
       case found of
         None \<Rightarrow> throw NotFoundError
       | Some don \<Rightarrow>
           if donorId don \<noteq> userId then throw ForbiddenError
           else if status don \<noteq> OPEN then throw ValidationError
           else donationRepository_delete donationId)"

definition applyForDonation :: "objectId \<Rightarrow> objectId \<Rightarrow> candidacy action" where
  "applyForDonation donationId userId =
     andThen (donationRepository_findById donationId) (\<lambda>found.
       case found of
         None \<Rightarrow> throw NotFoundError
       | Some don \<Rightarrow>
           if donorId don = userId then throw ValidationError
           else if status don \<noteq> OPEN then throw ValidationError
           else andThen (candidacyRepository_findByDonationAndUser donationId userId)
                  (\<lambda>existingCandidacy.
                     if existingCandidacy \<noteq> None then throw ValidationError
                     else candidacyRepository_create donationId userId))"

definition getDonationCandidates :: "objectId \<Rightarrow> objectId \<Rightarrow> candidacy list action" where
  "getDonationCandidates donationId requestingUserId =
     andThen (donationRepository_findById donationId) (\<lambda>found.
       case found of
         None \<Rightarrow> throw NotFoundError
       | Some don \<Rightarrow>
           if donorId don \<noteq> requestingUserId then throw ForbiddenError
           else candidacyRepository_findByDonation donationId)"

definition withdrawCandidacy :: "objectId \<Rightarrow> objectId \<Rightarrow> message action" where
  "withdrawCandidacy donationId userId =
     andThen (donationRepository_findById donationId) (\<lambda>found.
       case found of
         None \<Rightarrow> throw NotFoundError
       | Some don \<Rightarrow>
           andThen (candidacyRepository_findByDonationAndUser donationId userId) (\<lambda>cand.
             case cand of
               None \<Rightarrow> throw NotFoundError
             | Some c \<Rightarrow>
                 if status don = OPEN
                 then andThen (candidacyRepository_delete (candidacy_id c))
                        (\<lambda>_. succeed CandidacyWithdrawn)
                 else if status don = IN_PROGRESS \<and> receiverId don = Some userId
                 then throw ValidationError
                 else throw ValidationError))"

definition chooseReceiver :: "objectId \<Rightarrow> objectId \<Rightarrow> objectId \<Rightarrow> donation action" where
  "chooseReceiver donationId receiver donor =
     andThen (donationRepository_findById donationId) (\<lambda>found.
       case found of
         None \<Rightarrow> throw NotFoundError
       | Some don \<Rightarrow>
           if donorId don \<noteq> donor then throw ForbiddenError
           else if status don \<noteq> OPEN then throw ValidationError
           else andThen (candidacyRepository_findByDonationAndUser donationId receiver) (\<lambda>cand.
                  case cand of
                    None \<Rightarrow> throw ValidationError
                  | Some c \<Rightarrow>
                      andThen (setReceiver donationId receiver) (\<lambda>updatedDonation.
                      andThen (progressRepository_create donationId) (\<lambda>_.
                      andThen (deleteAllByDonation donationId) (\<lambda>_.
                      succeed updatedDonation)))))"

definition cancelReceiving :: "objectId \<Rightarrow> objectId \<Rightarrow> message action" where
  "cancelReceiving donationId userId =
     andThen (donationRepository_findById donationId) (\<lambda>found.
       case found of
         None \<Rightarrow> throw NotFoundError
       | Some don \<Rightarrow>
           if receiverId don \<noteq> Some userId then throw ForbiddenError
           else if status don \<noteq> IN_PROGRESS then throw ValidationError
           else andThen (removeReceiver donationId) (\<lambda>_.
                andThen (progressRepository_delete donationId) (\<lambda>_.
                succeed ReceivingCancelled)))"

definition updateProgress ::
  "objectId \<Rightarrow> objectId \<Rightarrow> progressUpdates
     \<Rightarrow> (donation \<times> donationProgress option) action" where
  "updateProgress donationId userId updates =
     andThen (donationRepository_findById donationId) (\<lambda>found.
       case found of
         None \<Rightarrow> throw NotFoundError
       | Some don \<Rightarrow>
           if receiverId don = None then throw ValidationError
           else andThen (findByDonation donationId) (\<lambda>foundProgress.
             case foundProgress of
               None \<Rightarrow> throw ValidationError
             | Some prog \<Rightarrow>
                 let isDonor = (donorId don = userId);
                     isReceiver = (receiverId don = Some userId)
                 in if \<not> isDonor \<and> \<not> isReceiver then throw ForbiddenError
                    else if isDonor \<and>
                            (upd_pickupConfirmedByReceiver updates \<noteq> None
                             \<or> upd_completionConfirmedByReceiver updates \<noteq> None
                             \<or> upd_returnConfirmedByReceiver updates \<noteq> None)
                    then throw ForbiddenError
                    else if isReceiver \<and>
                            (upd_pickupConfirmedByDonor updates \<noteq> None
                             \<or> upd_completionConfirmedByDonor updates \<noteq> None
                             \<or> upd_returnConfirmedByDonor updates \<noteq> None)
                    then throw ForbiddenError
                    else
                      let pickupConfirmed =
                            (orElse (upd_pickupConfirmedByDonor updates) (pickupConfirmedByDonor prog)
                             \<and> orElse (upd_pickupConfirmedByReceiver updates)
                                   (pickupConfirmedByReceiver prog))
                      in if (truthy (upd_completionConfirmedByDonor updates)
                             \<or> truthy (upd_completionConfirmedByReceiver updates))
                            \<and> \<not> pickupConfirmed
                         then throw ValidationError
                         else if truthy (upd_returnConfirmedByReceiver updates) \<and> \<not> pickupConfirmed
                         then throw ValidationError
                         else
                           andThen (progressRepository_update donationId (asProgressData updates))
                             (\<lambda>updatedProgress.
                           andThen (if pickupConfirmedByDonor updatedProgress
                                       \<and> pickupConfirmedByReceiver updatedProgress
                                       \<and> status don = IN_PROGRESS
                                    then andThen (updateStatus donationId PICKED_UP) (\<lambda>_. succeed ())
                                    else succeed ()) (\<lambda>_.
                           andThen (if completionConfirmedByDonor updatedProgress
                                       \<and> completionConfirmedByReceiver updatedProgress
                                       \<and> status don \<noteq> COMPLETED
                                    then andThen (updateStatus donationId COMPLETED) (\<lambda>_. succeed ())
                                    else succeed ()) (\<lambda>_.
                           getDonation donationId)))))"

definition signalReturn :: "objectId \<Rightarrow> objectId \<Rightarrow> string \<Rightarrow> message action" where
  "signalReturn donationId userId reason =
     andThen (donationRepository_findById donationId) (\<lambda>found.
       case found of
         None \<Rightarrow> throw NotFoundError
       | Some don \<Rightarrow>
           if receiverId don \<noteq> Some userId then throw ForbiddenError
           else andThen (findByDonation donationId) (\<lambda>foundProgress.
             case foundProgress of
               None \<Rightarrow> throw ValidationError
             | Some prog \<Rightarrow>
                 andThen (canSignalReturn donationId) (\<lambda>canReturn.
                   if \<not> canReturn then throw ValidationError
                   else andThen (progressRepository_update donationId
                                   (noProgressData\<lparr>data_returnSignaledByReceiver := Some True\<rparr>))
                          (\<lambda>_.
                        andThen (updateReturnReason donationId reason) (\<lambda>_.
                        succeed ReturnSignaled)))))"

definition confirmReturn :: "objectId \<Rightarrow> objectId \<Rightarrow> message action" where
  "confirmReturn donationId userId =
     andThen (donationRepository_findById donationId) (\<lambda>found.
       case found of
         None \<Rightarrow> throw NotFoundError
       | Some don \<Rightarrow>
           let isDonor = (donorId don = userId);
               isReceiver = (receiverId don = Some userId)
           in if \<not> isDonor \<and> \<not> isReceiver then throw ForbiddenError
              else andThen (findByDonation donationId) (\<lambda>foundProgress.
                case foundProgress of
                  None \<Rightarrow> throw ValidationError
                | Some prog \<Rightarrow>
                    if \<not> returnSignaledByReceiver prog then throw ValidationError
                    else
                      andThen (if isDonor
                               then progressRepository_update donationId
                                      (noProgressData\<lparr>data_returnConfirmedByDonor := Some True\<rparr>)
                               else progressRepository_update donationId
                                      (noProgressData\<lparr>data_returnConfirmedByReceiver := Some True\<rparr>))
                        (\<lambda>_.
                      andThen (isReturnCompleted donationId) (\<lambda>completed.
                        if completed
                        then andThen (removeReceiver donationId) (\<lambda>_.
                             andThen (progressRepository_delete donationId) (\<lambda>_.
                             succeed ReturnCompleted))
                        else succeed ConfirmationRegistered))))"

subsection \<open>The engine as a transition system\<close>

text \<open>
  One request to the service. Create, edit and delete carry their payload; the others carry
  the identifiers only. A request that the service rejects is a step too: it leaves the
  database the rejected call leaves.
\<close>

datatype request =
  CreateDonation objectId "field \<Rightarrow> string"
  | UpdateDonation objectId objectId "(field \<times> string option) list"
  | DeleteDonation objectId objectId
  | ApplyForDonation objectId objectId
  | WithdrawCandidacy objectId objectId
  | ChooseReceiver objectId objectId objectId
  | CancelReceiving objectId objectId
  | UpdateProgress objectId objectId progressUpdates
  | SignalReturn objectId objectId string
  | ConfirmReturn objectId objectId

fun perform :: "request \<Rightarrow> db \<Rightarrow> db" where
  "perform (CreateDonation donor data) s = snd (createDonation donor data s)"
| "perform (UpdateDonation i u data) s = snd (updateDonation i u data s)"
| "perform (DeleteDonation i u) s = snd (deleteDonation i u s)"
| "perform (ApplyForDonation i u) s = snd (applyForDonation i u s)"
| "perform (WithdrawCandidacy i u) s = snd (withdrawCandidacy i u s)"
| "perform (ChooseReceiver i r u) s = snd (chooseReceiver i r u s)"
| "perform (CancelReceiving i u) s = snd (cancelReceiving i u s)"
| "perform (UpdateProgress i u updates) s = snd (updateProgress i u updates s)"
| "perform (SignalReturn i u reason) s = snd (signalReturn i u reason s)"
| "perform (ConfirmReturn i u) s = snd (confirmReturn i u s)"

text \<open>The database before any donation: registered users, and nothing else.\<close>

definition initial :: "objectId set \<Rightarrow> db" where
  "initial us =
     \<lparr>users = us, counter = None, nextObjectId = 0, donations = Map.empty,
      candidacies = [], progress = Map.empty, editHistory = []\<rparr>"

definition run :: "request list \<Rightarrow> db \<Rightarrow> db" where
  "run rs s = fold perform rs s"

inductive reachable :: "db \<Rightarrow> bool" where
  start: "reachable (initial us)"
| step: "reachable s \<Longrightarrow> reachable (perform r s)"

text \<open>The flags of a donation's progress record, \<open>False\<close> where there is no record.\<close>

definition flag :: "(donationProgress \<Rightarrow> bool) \<Rightarrow> db \<Rightarrow> objectId \<Rightarrow> bool" where
  "flag f s i = (case progress s i of None \<Rightarrow> False | Some p \<Rightarrow> f p)"

subsection \<open>Notions derived from the service, for the proofs\<close>

text \<open>
  The guards of \<^verbatim>\<open>updateProgress\<close>, named: a request is forbidden when the actor is
  neither party or names a flag of the other party's half; it is premature when it sets a
  completion flag, or the receiver's return confirmation, while pickup would not be
  jointly confirmed (the test the service writes as \<^verbatim>\<open>pickupConfirmed\<close>).
\<close>

definition forbiddenFlags :: "donation \<Rightarrow> objectId \<Rightarrow> progressUpdates \<Rightarrow> bool" where
  "forbiddenFlags d u updates \<longleftrightarrow>
     (donorId d \<noteq> u \<and> receiverId d \<noteq> Some u)
     \<or> (donorId d = u \<and> (upd_pickupConfirmedByReceiver updates \<noteq> None
           \<or> upd_completionConfirmedByReceiver updates \<noteq> None
           \<or> upd_returnConfirmedByReceiver updates \<noteq> None))
     \<or> (receiverId d = Some u \<and> (upd_pickupConfirmedByDonor updates \<noteq> None
           \<or> upd_completionConfirmedByDonor updates \<noteq> None
           \<or> upd_returnConfirmedByDonor updates \<noteq> None))"

definition pickupJoint :: "donationProgress \<Rightarrow> progressUpdates \<Rightarrow> bool" where
  "pickupJoint p updates \<longleftrightarrow>
     orElse (upd_pickupConfirmedByDonor updates) (pickupConfirmedByDonor p)
     \<and> orElse (upd_pickupConfirmedByReceiver updates) (pickupConfirmedByReceiver p)"

definition prematureFlags :: "donationProgress \<Rightarrow> progressUpdates \<Rightarrow> bool" where
  "prematureFlags p updates \<longleftrightarrow>
     (upd_completionConfirmedByDonor updates = Some True
      \<or> upd_completionConfirmedByReceiver updates = Some True
      \<or> upd_returnConfirmedByReceiver updates = Some True)
     \<and> \<not> pickupJoint p updates"

text \<open>The part of \<^verbatim>\<open>updateProgress\<close> after its guards, from the write on.\<close>

definition afterGuards ::
  "objectId \<Rightarrow> donation \<Rightarrow> progressUpdates \<Rightarrow> (donation \<times> donationProgress option) action" where
  "afterGuards i d updates =
     andThen (progressRepository_update i (asProgressData updates))
       (\<lambda>updatedProgress.
     andThen (if pickupConfirmedByDonor updatedProgress
                 \<and> pickupConfirmedByReceiver updatedProgress
                 \<and> status d = IN_PROGRESS
              then andThen (updateStatus i PICKED_UP) (\<lambda>_. succeed ())
              else succeed ()) (\<lambda>_.
     andThen (if completionConfirmedByDonor updatedProgress
                 \<and> completionConfirmedByReceiver updatedProgress
                 \<and> status d \<noteq> COMPLETED
              then andThen (updateStatus i COMPLETED) (\<lambda>_. succeed ())
              else succeed ()) (\<lambda>_.
     getDonation i)))"

text \<open>The status the two automatic transitions of \<^verbatim>\<open>updateProgress\<close> leave.\<close>

definition statusAfter :: "donationStatus \<Rightarrow> donationProgress \<Rightarrow> donationStatus" where
  "statusAfter st p =
     (if completionConfirmedByDonor p \<and> completionConfirmedByReceiver p \<and> st \<noteq> COMPLETED
      then COMPLETED
      else if pickupConfirmedByDonor p \<and> pickupConfirmedByReceiver p \<and> st = IN_PROGRESS
      then PICKED_UP else st)"

definition committed :: "objectId \<Rightarrow> donation \<Rightarrow> donationProgress \<Rightarrow> db \<Rightarrow> db" where
  "committed i d p s =
     s\<lparr>progress := (progress s)(i \<mapsto> p),
       donations := (donations s)(i \<mapsto> d\<lparr>status := statusAfter (status d) p\<rparr>)\<rparr>"

text \<open>
  What every database the engine can reach satisfies: identifiers in use are below the
  next one, a donation has a receiver exactly when it is not OPEN, and a progress record
  belongs to a stored donation that has a receiver.
\<close>

definition consistent :: "db \<Rightarrow> bool" where
  "consistent s \<longleftrightarrow>
     (\<forall>i d. donations s i = Some d \<longrightarrow>
        i < nextObjectId s \<and> (receiverId d \<noteq> None \<longleftrightarrow> status d \<noteq> OPEN))
     \<and> (\<forall>i. progress s i \<noteq> None \<longrightarrow> (\<exists>d. donations s i = Some d \<and> receiverId d \<noteq> None))"

text \<open>
  The receiver of a donation is never its donor, and every candidacy is for a stored
  donation by somebody other than its donor.
\<close>

definition apart :: "db \<Rightarrow> bool" where
  "apart s \<longleftrightarrow>
     (\<forall>i d r. donations s i = Some d \<longrightarrow> receiverId d = Some r \<longrightarrow> r \<noteq> donorId d)
     \<and> (\<forall>c \<in> set (candidacies s).
           \<exists>d. donations s (cand_donationId c) = Some d \<and> cand_userId c \<noteq> donorId d)"

text \<open>A progress record that agrees with another on pickup, completion and the return signal.\<close>

definition keeps :: "donationProgress \<Rightarrow> donationProgress \<Rightarrow> bool" where
  "keeps p p' \<longleftrightarrow>
     pickupConfirmedByDonor p' = pickupConfirmedByDonor p
     \<and> pickupConfirmedByReceiver p' = pickupConfirmedByReceiver p
     \<and> completionConfirmedByDonor p' = completionConfirmedByDonor p
     \<and> completionConfirmedByReceiver p' = completionConfirmedByReceiver p
     \<and> returnSignaledByReceiver p' = returnSignaledByReceiver p"

text \<open>The all-false record the progress repository creates.\<close>

definition freshProgress :: donationProgress where
  "freshProgress =
     \<lparr>pickupConfirmedByDonor = False, pickupConfirmedByReceiver = False,
      completionConfirmedByDonor = False, completionConfirmedByReceiver = False,
      returnSignaledByReceiver = False, returnConfirmedByDonor = False,
      returnConfirmedByReceiver = False\<rparr>"

subsection \<open>A worked run\<close>

text \<open>
  Users 10 (the donor) and 20 (the candidate). The donor creates a donation, which the
  store numbers 0; the candidate applies (candidacy 1), is chosen, both confirm pickup,
  and then either both confirm completion or the receiver signals a return.
\<close>

definition sofa :: "field \<Rightarrow> string" where
  "sofa = (\<lambda>_. ''-'')(Title := ''Sofa'', City := ''Recife'')"

definition noUpdates :: progressUpdates where
  "noUpdates =
     \<lparr>upd_pickupConfirmedByDonor = None, upd_pickupConfirmedByReceiver = None,
      upd_completionConfirmedByDonor = None, upd_completionConfirmedByReceiver = None,
      upd_returnConfirmedByDonor = None, upd_returnConfirmedByReceiver = None\<rparr>"

definition openDonation :: donation where
  "openDonation =
     \<lparr>donation_id = 0, sequentialId = 1, attrs = sofa, status = OPEN, returnReason = None,
      donorId = 10, receiverId = None\<rparr>"

definition appliedDb :: db where
  "appliedDb =
     \<lparr>users = {10, 20}, counter = Some 1, nextObjectId = 2,
      donations = [0 \<mapsto> openDonation],
      candidacies = [\<lparr>candidacy_id = 1, cand_donationId = 0, cand_userId = 20\<rparr>],
      progress = Map.empty, editHistory = []\<rparr>"

definition chosenDb :: db where
  "chosenDb =
     appliedDb\<lparr>donations := [0 \<mapsto> openDonation\<lparr>status := IN_PROGRESS, receiverId := Some 20\<rparr>],
              candidacies := [],
              progress := [0 \<mapsto> freshProgress]\<rparr>"

definition donorConfirmedDb :: db where
  "donorConfirmedDb =
     chosenDb\<lparr>progress := [0 \<mapsto> freshProgress\<lparr>pickupConfirmedByDonor := True\<rparr>]\<rparr>"

definition pickedUpDb :: db where
  "pickedUpDb =
     chosenDb\<lparr>donations := [0 \<mapsto> openDonation\<lparr>status := PICKED_UP, receiverId := Some 20\<rparr>],
             progress := [0 \<mapsto> freshProgress\<lparr>pickupConfirmedByDonor := True,
                                               pickupConfirmedByReceiver := True\<rparr>]\<rparr>"

definition donorCompletedDb :: db where
  "donorCompletedDb =
     pickedUpDb\<lparr>progress := [0 \<mapsto> freshProgress\<lparr>pickupConfirmedByDonor := True,
                                                 pickupConfirmedByReceiver := True,
                                                 completionConfirmedByDonor := True\<rparr>]\<rparr>"

definition completedDb :: db where
  "completedDb =
     chosenDb\<lparr>donations := [0 \<mapsto> openDonation\<lparr>status := COMPLETED, receiverId := Some 20\<rparr>],
             progress := [0 \<mapsto> freshProgress\<lparr>pickupConfirmedByDonor := True,
                                               pickupConfirmedByReceiver := True,
                                               completionConfirmedByDonor := True,
                                               completionConfirmedByReceiver := True\<rparr>]\<rparr>"

definition returningDb :: db where
  "returningDb =
     chosenDb\<lparr>donations := [0 \<mapsto> openDonation\<lparr>status := PICKED_UP, receiverId := Some 20,
                                              returnReason := Some ''item damaged''\<rparr>],
             progress := [0 \<mapsto> freshProgress\<lparr>pickupConfirmedByDonor := True,
                                               pickupConfirmedByReceiver := True,
                                               returnSignaledByReceiver := True\<rparr>]\<rparr>"

subsection \<open>Running the service: basic facts\<close>

lemmas repo_defs = andThen_def succeed_def throw_def donationRepository_findById_def
  prisma_donation_update_def donationRepository_update_def donationRepository_delete_def
  donationRepository_create_def getNextSequentialId_def
  saveDonationEditHistory_def updateStatus_def setReceiver_def removeReceiver_def
  updateReturnReason_def candidacyRepository_findByDonationAndUser_def candidacyRepository_create_def
  candidacyRepository_findByDonation_def candidacyRepository_delete_def deleteAllByDonation_def
  progressRepository_create_def findByDonation_def progressRepository_update_def
  progressRepository_delete_def isReturnCompleted_def canSignalReturn_def userRepository_findById_def
  getDonation_def

lemma updateStatus_known:
  "donations s i = Some d \<Longrightarrow>
   updateStatus i st s =
     (Inr (d\<lparr>status := st\<rparr>), s\<lparr>donations := (donations s)(i \<mapsto> d\<lparr>status := st\<rparr>)\<rparr>)"
  by (simp add: updateStatus_def prisma_donation_update_def)

lemma getDonation_known:
  "donations s i = Some d \<Longrightarrow> getDonation i s = (Inr (d, progress s i), s)"
  by (simp add: getDonation_def andThen_def donationRepository_findById_def
      findByDonation_def succeed_def)

lemma same_donation:
  "donations s i = Some d \<Longrightarrow> s\<lparr>donations := (donations s)(i \<mapsto> d)\<rparr> = s"
  by (simp add: map_upd_triv)

lemma transitions:
  assumes "donations s i = Some d"
  shows "andThen (if c1 then andThen (updateStatus i PICKED_UP) (\<lambda>_. succeed ()) else succeed ())
           (\<lambda>_. andThen (if c2 then andThen (updateStatus i COMPLETED) (\<lambda>_. succeed ())
                          else succeed ())
           (\<lambda>_. getDonation i)) s
     = (Inr (d\<lparr>status := if c2 then COMPLETED else if c1 then PICKED_UP else status d\<rparr>,
             progress s i),
        s\<lparr>donations := (donations s)
             (i \<mapsto> d\<lparr>status := if c2 then COMPLETED else if c1 then PICKED_UP else status d\<rparr>)\<rparr>)"
  using assms
  by (cases c1; cases c2;
      simp add: andThen_def succeed_def updateStatus_known getDonation_known same_donation)

lemma guard_chain:
  "(if g1 then throw e1 else if g2 then throw e1 else if g3 then throw e1
    else if g4 then throw e2 else if g5 then throw e2 else rest) s
   = (if g1 \<or> g2 \<or> g3 then (Inl e1, s) else if g4 \<or> g5 then (Inl e2, s) else rest s)"
  by (simp add: throw_def)

lemma updateProgress_unfold:
  assumes d: "donations s i = Some d" and r: "receiverId d = Some r" and p: "progress s i = Some p"
  shows "updateProgress i u updates s =
      (if donorId d \<noteq> u \<and> receiverId d \<noteq> Some u then throw ForbiddenError
       else if donorId d = u \<and>
                            (upd_pickupConfirmedByReceiver updates \<noteq> None
                             \<or> upd_completionConfirmedByReceiver updates \<noteq> None
                             \<or> upd_returnConfirmedByReceiver updates \<noteq> None)
       then throw ForbiddenError
       else if receiverId d = Some u \<and>
                            (upd_pickupConfirmedByDonor updates \<noteq> None
                             \<or> upd_completionConfirmedByDonor updates \<noteq> None
                             \<or> upd_returnConfirmedByDonor updates \<noteq> None)
       then throw ForbiddenError
       else if (truthy (upd_completionConfirmedByDonor updates)
                             \<or> truthy (upd_completionConfirmedByReceiver updates))
                            \<and> \<not> pickupJoint p updates
       then throw ValidationError
       else if truthy (upd_returnConfirmedByReceiver updates) \<and> \<not> pickupJoint p updates
       then throw ValidationError
       else afterGuards i d updates) s"
  unfolding updateProgress_def afterGuards_def Let_def pickupJoint_def
  by (subst andThen_def,
      simp only: donationRepository_findById_def prod.case sum.case option.case d r
        option.distinct if_False,
      subst andThen_def,
      simp only: findByDonation_def prod.case sum.case option.case p simp_thms if_True if_False)

lemma updateProgress_guards:
  assumes d: "donations s i = Some d" and r: "receiverId d = Some r" and p: "progress s i = Some p"
  shows "updateProgress i u updates s =
      (if forbiddenFlags d u updates then (Inl ForbiddenError, s)
       else if prematureFlags p updates then (Inl ValidationError, s)
       else afterGuards i d updates s)"
proof -
  have f: "forbiddenFlags d u updates \<longleftrightarrow>
      (donorId d \<noteq> u \<and> receiverId d \<noteq> Some u) \<or>
       (donorId d = u \<and>
                            (upd_pickupConfirmedByReceiver updates \<noteq> None
                             \<or> upd_completionConfirmedByReceiver updates \<noteq> None
                             \<or> upd_returnConfirmedByReceiver updates \<noteq> None)) \<or>
       (receiverId d = Some u \<and>
                            (upd_pickupConfirmedByDonor updates \<noteq> None
                             \<or> upd_completionConfirmedByDonor updates \<noteq> None
                             \<or> upd_returnConfirmedByDonor updates \<noteq> None))"
    by (simp add: forbiddenFlags_def)
  have v: "prematureFlags p updates \<longleftrightarrow>
       ((truthy (upd_completionConfirmedByDonor updates)
                             \<or> truthy (upd_completionConfirmedByReceiver updates))
                            \<and> \<not> pickupJoint p updates) \<or>
       (truthy (upd_returnConfirmedByReceiver updates) \<and> \<not> pickupJoint p updates)"
    by (auto simp: prematureFlags_def truthy_def)
  show ?thesis
    unfolding updateProgress_unfold[OF assms] guard_chain f v ..
qed

lemma afterGuards_known:
  assumes d: "donations s i = Some d" and p: "progress s i = Some p"
  shows "afterGuards i d updates s =
     (Inr (d\<lparr>status := statusAfter (status d) (writeProgress (asProgressData updates) p)\<rparr>,
           Some (writeProgress (asProgressData updates) p)),
      committed i d (writeProgress (asProgressData updates) p) s)"
proof -
  let ?p' = "writeProgress (asProgressData updates) p"
  let ?s1 = "s\<lparr>progress := (progress s)(i \<mapsto> ?p')\<rparr>"
  have upd: "progressRepository_update i (asProgressData updates) s = (Inr ?p', ?s1)"
    using p by (simp add: progressRepository_update_def)
  have d1: "donations ?s1 i = Some d" using d by simp
  show ?thesis
    unfolding afterGuards_def
    by (subst andThen_def) (simp add: upd transitions[OF d1] committed_def statusAfter_def)
qed

text \<open>\<^verbatim>\<open>updateProgress\<close> on a donation with a receiver and a progress record, in one equation.\<close>

lemma updateProgress_known:
  assumes d: "donations s i = Some d" and r: "receiverId d = Some r" and p: "progress s i = Some p"
  shows "updateProgress i u updates s =
      (if forbiddenFlags d u updates then (Inl ForbiddenError, s)
       else if prematureFlags p updates then (Inl ValidationError, s)
       else (Inr (d\<lparr>status := statusAfter (status d) (writeProgress (asProgressData updates) p)\<rparr>,
                  Some (writeProgress (asProgressData updates) p)),
             committed i d (writeProgress (asProgressData updates) p) s))"
  unfolding updateProgress_guards[OF assms] afterGuards_known[OF d p] ..

lemma updateProgress_no_donation:
  "donations s i = None \<Longrightarrow> updateProgress i u updates s = (Inl NotFoundError, s)"
  by (simp add: updateProgress_def repo_defs)

lemma updateProgress_no_receiver:
  "donations s i = Some d \<Longrightarrow> receiverId d = None
   \<Longrightarrow> updateProgress i u updates s = (Inl ValidationError, s)"
  by (simp add: updateProgress_def repo_defs)

lemma updateProgress_no_progress:
  "donations s i = Some d \<Longrightarrow> progress s i = None
   \<Longrightarrow> updateProgress i u updates s = (Inl ValidationError, s)"
  by (simp add: updateProgress_def repo_defs)

text \<open>Either \<^verbatim>\<open>updateProgress\<close> leaves the database alone, or it commits.\<close>

lemma updateProgress_effect:
  "snd (updateProgress i u updates s) = s
   \<or> (\<exists>d r p. donations s i = Some d \<and> receiverId d = Some r \<and> progress s i = Some p
         \<and> \<not> forbiddenFlags d u updates \<and> \<not> prematureFlags p updates
         \<and> snd (updateProgress i u updates s)
             = committed i d (writeProgress (asProgressData updates) p) s)"
proof (cases "donations s i")
  case None
  then show ?thesis by (simp add: updateProgress_no_donation)
next
  case d: (Some d)
  show ?thesis
  proof (cases "receiverId d")
    case None
    with d show ?thesis by (simp add: updateProgress_no_receiver)
  next
    case r: (Some r)
    show ?thesis
    proof (cases "progress s i")
      case None
      with d show ?thesis by (simp add: updateProgress_no_progress)
    next
      case p: (Some p)
      show ?thesis
        using d r p by (simp add: updateProgress_known[OF d r p])
    qed
  qed
qed

subsection \<open>What every reachable database satisfies\<close>

lemma consistent_createDonation: "consistent s \<Longrightarrow> consistent (snd (createDonation u data s))"
  by (fastforce simp: consistent_def createDonation_def repo_defs Let_def less_Suc_eq
      split: option.splits if_splits)

lemma consistent_updateDonation: "consistent s \<Longrightarrow> consistent (snd (updateDonation i u data s))"
  by (fastforce simp: consistent_def updateDonation_def repo_defs Let_def
      split: option.splits if_splits)

lemma consistent_deleteDonation: "consistent s \<Longrightarrow> consistent (snd (deleteDonation i u s))"
  by (fastforce simp: consistent_def deleteDonation_def repo_defs Let_def
      split: option.splits if_splits)

lemma consistent_applyForDonation: "consistent s \<Longrightarrow> consistent (snd (applyForDonation i u s))"
  by (fastforce simp: consistent_def applyForDonation_def repo_defs Let_def less_Suc_eq
      split: option.splits if_splits)

lemma consistent_withdrawCandidacy: "consistent s \<Longrightarrow> consistent (snd (withdrawCandidacy i u s))"
  by (fastforce simp: consistent_def withdrawCandidacy_def repo_defs Let_def
      split: option.splits if_splits)

lemma consistent_chooseReceiver: "consistent s \<Longrightarrow> consistent (snd (chooseReceiver i r u s))"
  by (fastforce simp: consistent_def chooseReceiver_def repo_defs Let_def
      split: option.splits if_splits)

lemma consistent_cancelReceiving: "consistent s \<Longrightarrow> consistent (snd (cancelReceiving i u s))"
  by (fastforce simp: consistent_def cancelReceiving_def repo_defs Let_def
      split: option.splits if_splits)

lemma statusAfter_not_OPEN: "st \<noteq> OPEN \<Longrightarrow> statusAfter st p \<noteq> OPEN"
  by (simp add: statusAfter_def)

lemma consistent_committed:
  assumes "consistent s" "donations s i = Some d" "receiverId d = Some r"
  shows "consistent (committed i d p s)"
proof -
  have "status d \<noteq> OPEN" using assms unfolding consistent_def by fastforce
  then have "statusAfter (status d) p \<noteq> OPEN" by (rule statusAfter_not_OPEN)
  then show ?thesis
    using assms unfolding consistent_def committed_def by auto
qed

lemma consistent_updateProgress: "consistent s \<Longrightarrow> consistent (snd (updateProgress i u updates s))"
  using updateProgress_effect[of i u updates s] by (auto simp: consistent_committed)

lemma consistent_signalReturn: "consistent s \<Longrightarrow> consistent (snd (signalReturn i u reason s))"
  by (fastforce simp: consistent_def signalReturn_def repo_defs Let_def
      split: option.splits if_splits)

lemma consistent_confirmReturn: "consistent s \<Longrightarrow> consistent (snd (confirmReturn i u s))"
  by (fastforce simp: consistent_def confirmReturn_def repo_defs Let_def
      split: option.splits if_splits)

lemma consistent_perform: "consistent s \<Longrightarrow> consistent (perform r s)"
  by (cases r)
     (simp_all add: consistent_createDonation consistent_updateDonation consistent_deleteDonation
        consistent_applyForDonation consistent_withdrawCandidacy consistent_chooseReceiver
        consistent_cancelReceiving consistent_updateProgress consistent_signalReturn
        consistent_confirmReturn)

lemma consistent_initial: "consistent (initial us)"
  by (simp add: consistent_def initial_def)

lemma reachable_consistent: "reachable s \<Longrightarrow> consistent s"
  by (induction rule: reachable.induct) (simp_all add: consistent_initial consistent_perform)

lemma reachable_run: "reachable s \<Longrightarrow> reachable (run rs s)"
  unfolding run_def by (induction rs arbitrary: s) (auto intro: reachable.step)

lemma reachable_OPEN_no_progress:
  assumes "reachable s" "donations s i = Some d" "status d = OPEN"
  shows "progress s i = None"
proof -
  have "consistent s" using assms(1) by (rule reachable_consistent)
  then show ?thesis using assms(2,3) unfolding consistent_def by fastforce
qed

lemma find_SomeD: "find P xs = Some x \<Longrightarrow> x \<in> set xs \<and> P x"
  by (auto simp: find_Some_iff)

lemma apart_createDonation:
  "consistent s \<Longrightarrow> apart s \<Longrightarrow> apart (snd (createDonation u data s))"
  unfolding apart_def consistent_def
  by (fastforce simp: createDonation_def repo_defs Let_def split: option.splits if_splits)

lemma apart_updateDonation: "apart s \<Longrightarrow> apart (snd (updateDonation i u data s))"
  unfolding apart_def
  by (fastforce simp: updateDonation_def repo_defs Let_def split: option.splits if_splits)

lemma apart_deleteDonation: "apart s \<Longrightarrow> apart (snd (deleteDonation i u s))"
  unfolding apart_def
  by (fastforce simp: deleteDonation_def repo_defs Let_def split: option.splits if_splits)

lemma apart_applyForDonation: "apart s \<Longrightarrow> apart (snd (applyForDonation i u s))"
  unfolding apart_def
  by (fastforce simp: applyForDonation_def repo_defs Let_def split: option.splits if_splits)

lemma apart_withdrawCandidacy: "apart s \<Longrightarrow> apart (snd (withdrawCandidacy i u s))"
  unfolding apart_def
  by (fastforce simp: withdrawCandidacy_def repo_defs Let_def split: option.splits if_splits)

lemma apart_chooseReceiver: "apart s \<Longrightarrow> apart (snd (chooseReceiver i r u s))"
  unfolding apart_def
  by (fastforce simp: chooseReceiver_def repo_defs Let_def split: option.splits if_splits
      dest: find_SomeD)

lemma apart_cancelReceiving: "apart s \<Longrightarrow> apart (snd (cancelReceiving i u s))"
  unfolding apart_def
  by (fastforce simp: cancelReceiving_def repo_defs Let_def split: option.splits if_splits)

lemma apart_committed:
  assumes "apart s" "donations s i = Some d"
  shows "apart (committed i d p s)"
  unfolding apart_def committed_def
proof (intro conjI allI impI ballI)
  fix j d' r
  assume "donations (s\<lparr>progress := (progress s)(i \<mapsto> p),
       donations := (donations s)(i \<mapsto> d\<lparr>status := statusAfter (status d) p\<rparr>)\<rparr>) j = Some d'"
    and "receiverId d' = Some r"
  then show "r \<noteq> donorId d'"
    using assms unfolding apart_def by (cases "j = i") fastforce+
next
  fix c
  assume "c \<in> set (candidacies (s\<lparr>progress := (progress s)(i \<mapsto> p),
       donations := (donations s)(i \<mapsto> d\<lparr>status := statusAfter (status d) p\<rparr>)\<rparr>))"
  then have "c \<in> set (candidacies s)" by simp
  with assms(1) obtain d' where "donations s (cand_donationId c) = Some d'"
    "cand_userId c \<noteq> donorId d'" unfolding apart_def by blast
  then show "\<exists>d'. donations (s\<lparr>progress := (progress s)(i \<mapsto> p),
       donations := (donations s)(i \<mapsto> d\<lparr>status := statusAfter (status d) p\<rparr>)\<rparr>)
        (cand_donationId c) = Some d' \<and> cand_userId c \<noteq> donorId d'"
    using assms(2) by (cases "cand_donationId c = i") auto
qed

lemma apart_updateProgress: "apart s \<Longrightarrow> apart (snd (updateProgress i u updates s))"
  using updateProgress_effect[of i u updates s] by (auto simp: apart_committed)

lemma apart_signalReturn: "apart s \<Longrightarrow> apart (snd (signalReturn i u reason s))"
  unfolding apart_def
  by (fastforce simp: signalReturn_def repo_defs Let_def split: option.splits if_splits)

lemma apart_confirmReturn: "apart s \<Longrightarrow> apart (snd (confirmReturn i u s))"
  unfolding apart_def
  by (fastforce simp: confirmReturn_def repo_defs Let_def split: option.splits if_splits)

lemma apart_perform: "consistent s \<Longrightarrow> apart s \<Longrightarrow> apart (perform r s)"
  by (cases r)
     (simp_all add: apart_createDonation apart_updateDonation apart_deleteDonation
        apart_applyForDonation apart_withdrawCandidacy apart_chooseReceiver
        apart_cancelReceiving apart_updateProgress apart_signalReturn apart_confirmReturn)

lemma apart_initial: "apart (initial us)"
  by (simp add: apart_def initial_def)

lemma reachable_apart: "reachable s \<Longrightarrow> apart s"
  by (induction rule: reachable.induct)
     (simp_all add: apart_initial apart_perform reachable_consistent)

text \<open>In every database the engine can reach, donor and receiver are two users.\<close>

lemma reachable_receiver_not_donor:
  assumes "reachable s" and "donations s i = Some d" and "receiverId d = Some r"
  shows "r \<noteq> donorId d"
  using reachable_apart[OF assms(1)] assms(2,3) unfolding apart_def by blast

subsection \<open>The worked run, step by step\<close>

lemmas run_defs = sofa_def freshProgress_def noUpdates_def openDonation_def appliedDb_def
  chosenDb_def donorConfirmedDb_def pickedUpDb_def donorCompletedDb_def completedDb_def
  returningDb_def

lemmas eval_defs = forbiddenFlags_def prematureFlags_def pickupJoint_def committed_def
  statusAfter_def writeProgress_def asProgressData_def noProgressData_def orElse_def truthy_def
  flag_def

lemma appliedDb_run:
  "run [CreateDonation 10 sofa, ApplyForDonation 0 20] (initial {10, 20}) = appliedDb"
  by (simp add: run_def initial_def createDonation_def applyForDonation_def repo_defs
      Let_def appliedDb_def openDonation_def)

lemma chosenDb_run: "perform (ChooseReceiver 0 20 10) appliedDb = chosenDb"
  by (simp add: chooseReceiver_def repo_defs Let_def run_defs)

lemma chosenDb_facts:
  "donations chosenDb 0 = Some (openDonation\<lparr>status := IN_PROGRESS, receiverId := Some 20\<rparr>)"
  "progress chosenDb 0 = Some freshProgress"
  by (simp_all add: chosenDb_def)

lemma pickedUpDb_facts:
  "donations pickedUpDb 0 = Some (openDonation\<lparr>status := PICKED_UP, receiverId := Some 20\<rparr>)"
  "progress pickedUpDb 0 = Some (freshProgress\<lparr>pickupConfirmedByDonor := True,
                                               pickupConfirmedByReceiver := True\<rparr>)"
  by (simp_all add: pickedUpDb_def)

lemma donorConfirmedDb_facts:
  "donations donorConfirmedDb 0 = Some (openDonation\<lparr>status := IN_PROGRESS, receiverId := Some 20\<rparr>)"
  "progress donorConfirmedDb 0 = Some (freshProgress\<lparr>pickupConfirmedByDonor := True\<rparr>)"
  by (simp_all add: donorConfirmedDb_def chosenDb_def)

lemma donorCompletedDb_facts:
  "donations donorCompletedDb 0 = Some (openDonation\<lparr>status := PICKED_UP, receiverId := Some 20\<rparr>)"
  "progress donorCompletedDb 0 = Some (freshProgress\<lparr>pickupConfirmedByDonor := True,
                                                 pickupConfirmedByReceiver := True,
                                                 completionConfirmedByDonor := True\<rparr>)"
  by (simp_all add: donorCompletedDb_def pickedUpDb_def)

lemma donorConfirmedDb_run:
  "perform (UpdateProgress 0 10 (noUpdates\<lparr>upd_pickupConfirmedByDonor := Some True\<rparr>)) chosenDb
   = donorConfirmedDb"
  unfolding perform.simps
  by (subst updateProgress_known[OF chosenDb_facts(1) _ chosenDb_facts(2)])
     (simp_all add: eval_defs run_defs)

lemma pickedUpDb_run:
  "perform (UpdateProgress 0 20 (noUpdates\<lparr>upd_pickupConfirmedByReceiver := Some True\<rparr>))
     donorConfirmedDb = pickedUpDb"
  unfolding perform.simps
  by (subst updateProgress_known[OF donorConfirmedDb_facts(1) _ donorConfirmedDb_facts(2)])
     (simp_all add: eval_defs run_defs)

lemma donorCompletedDb_run:
  "perform (UpdateProgress 0 10 (noUpdates\<lparr>upd_completionConfirmedByDonor := Some True\<rparr>))
     pickedUpDb = donorCompletedDb"
  unfolding perform.simps
  by (subst updateProgress_known[OF pickedUpDb_facts(1) _ pickedUpDb_facts(2)])
     (simp_all add: eval_defs run_defs)

lemma completedDb_run:
  "perform (UpdateProgress 0 20 (noUpdates\<lparr>upd_completionConfirmedByReceiver := Some True\<rparr>))
     donorCompletedDb = completedDb"
  unfolding perform.simps
  by (subst updateProgress_known[OF donorCompletedDb_facts(1) _ donorCompletedDb_facts(2)])
     (simp_all add: eval_defs run_defs)

lemma returningDb_run: "perform (SignalReturn 0 20 ''item damaged'') pickedUpDb = returningDb"
  by (simp add: signalReturn_def repo_defs Let_def eval_defs run_defs)

lemma reachable_appliedDb: "reachable appliedDb"
  using reachable_run[OF reachable.start, of _ "{10, 20}"] appliedDb_run by metis

lemma reachable_chosenDb: "reachable chosenDb"
  using reachable.step[OF reachable_appliedDb] chosenDb_run by metis

lemma reachable_donorConfirmedDb: "reachable donorConfirmedDb"
  using reachable.step[OF reachable_chosenDb] donorConfirmedDb_run by metis

lemma reachable_pickedUpDb: "reachable pickedUpDb"
  using reachable.step[OF reachable_donorConfirmedDb] pickedUpDb_run by metis

lemma reachable_donorCompletedDb: "reachable donorCompletedDb"
  using reachable.step[OF reachable_pickedUpDb] donorCompletedDb_run by metis

lemma reachable_completedDb: "reachable completedDb"
  using reachable.step[OF reachable_donorCompletedDb] completedDb_run by metis

lemma reachable_returningDb: "reachable returningDb"
  using reachable.step[OF reachable_pickedUpDb] returningDb_run by metis

subsection \<open>What the other operations do to a progress record\<close>

lemma progress_createDonation:
  "progress (snd (createDonation u data s)) = progress s"
  by (simp add: createDonation_def repo_defs Let_def)

lemma progress_updateDonation:
  "progress (snd (updateDonation i u data s)) = progress s"
  by (simp add: updateDonation_def repo_defs Let_def split: option.splits)

lemma progress_applyForDonation:
  "progress (snd (applyForDonation i u s)) = progress s"
  by (simp add: applyForDonation_def repo_defs Let_def split: option.splits)

lemma progress_withdrawCandidacy:
  "progress (snd (withdrawCandidacy i u s)) = progress s"
  by (simp add: withdrawCandidacy_def repo_defs Let_def split: option.splits)

lemma progress_deleteDonation:
  "progress (snd (deleteDonation i u s)) j = Some p' \<Longrightarrow> progress s j = Some p'"
  by (auto simp: deleteDonation_def repo_defs Let_def split: option.splits if_splits)

lemma progress_cancelReceiving:
  "progress (snd (cancelReceiving i u s)) j = Some p' \<Longrightarrow> progress s j = Some p'"
  by (auto simp: cancelReceiving_def repo_defs Let_def split: option.splits if_splits)

lemma progress_chooseReceiver:
  "progress (snd (chooseReceiver i r u s)) j = Some p'
   \<Longrightarrow> p' = freshProgress \<or> progress s j = Some p'"
  by (auto simp: chooseReceiver_def repo_defs Let_def freshProgress_def
      split: option.splits if_splits)

lemma progress_confirmReturn:
  "progress (snd (confirmReturn i u s)) j = Some p'
   \<Longrightarrow> \<exists>p. progress s j = Some p \<and> keeps p p'"
  by (auto simp: confirmReturn_def repo_defs Let_def keeps_def writeProgress_def
      noProgressData_def orElse_def split: option.splits if_splits)

lemma progress_signalReturn:
  "progress (snd (signalReturn i u reason s)) j = Some p'
   \<Longrightarrow> \<exists>p. progress s j = Some p
         \<and> pickupConfirmedByDonor p' = pickupConfirmedByDonor p
         \<and> pickupConfirmedByReceiver p' = pickupConfirmedByReceiver p
         \<and> completionConfirmedByDonor p' = completionConfirmedByDonor p
         \<and> completionConfirmedByReceiver p' = completionConfirmedByReceiver p"
  by (auto simp: signalReturn_def repo_defs Let_def writeProgress_def
      noProgressData_def orElse_def split: option.splits if_splits)

text \<open>Every request but \<^verbatim>\<open>updateProgress\<close> leaves the pickup and completion flags as they were.\<close>

lemma progress_other_requests:
  assumes "\<forall>i u updates. r \<noteq> UpdateProgress i u updates"
    and "progress (perform r s) j = Some p'"
  shows "p' = freshProgress
     \<or> (\<exists>p. progress s j = Some p
         \<and> pickupConfirmedByDonor p' = pickupConfirmedByDonor p
         \<and> pickupConfirmedByReceiver p' = pickupConfirmedByReceiver p
         \<and> completionConfirmedByDonor p' = completionConfirmedByDonor p
         \<and> completionConfirmedByReceiver p' = completionConfirmedByReceiver p)"
proof (cases r)
  case (CreateDonation u data)
  with assms(2) show ?thesis by (simp add: progress_createDonation)
next
  case (UpdateDonation i u data)
  with assms(2) show ?thesis by (simp add: progress_updateDonation)
next
  case (DeleteDonation i u)
  with assms(2) show ?thesis using progress_deleteDonation[of i u s j p'] by simp
next
  case (ApplyForDonation i u)
  with assms(2) show ?thesis by (simp add: progress_applyForDonation)
next
  case (WithdrawCandidacy i u)
  with assms(2) show ?thesis by (simp add: progress_withdrawCandidacy)
next
  case (ChooseReceiver i rc u)
  with assms(2) show ?thesis using progress_chooseReceiver[of i rc u s j p'] by auto
next
  case (CancelReceiving i u)
  with assms(2) show ?thesis using progress_cancelReceiving[of i u s j p'] by simp
next
  case (UpdateProgress i u updates)
  with assms(1) show ?thesis by simp
next
  case (SignalReturn i u reason)
  with assms(2) show ?thesis using progress_signalReturn[of i u reason s j p'] by auto
next
  case (ConfirmReturn i u)
  with assms(2) show ?thesis using progress_confirmReturn[of i u s j p']
    by (auto simp: keeps_def)
qed

lemma progress_updateProgress:
  assumes "progress (snd (updateProgress i u updates s)) j = Some p'"
  shows "progress s j = Some p'
     \<or> (\<exists>p. j = i \<and> progress s i = Some p \<and> \<not> prematureFlags p updates
            \<and> p' = writeProgress (asProgressData updates) p)"
  using updateProgress_effect[of i u updates s] assms
  by (auto simp: committed_def split: if_splits)

section \<open>The claims\<close>

subsection \<open>C1: who has a receiver\<close>

text \<open>
  C1 says that a donation reachable through the engine has a receiver exactly when its
  status is IN_PROGRESS or PICKED_UP, so that a COMPLETED donation has none. The worked run
  refutes it: \<^verbatim>\<open>updateProgress\<close> moves the donation to COMPLETED with \<^verbatim>\<open>updateStatus\<close>,
  which writes the status alone, and the receiver stays.
\<close>

theorem C1_counterexample:
  "reachable completedDb
   \<and> donations completedDb 0 = Some (openDonation\<lparr>status := COMPLETED, receiverId := Some 20\<rparr>)
   \<and> \<not> (receiverId (openDonation\<lparr>status := COMPLETED, receiverId := Some 20\<rparr>) \<noteq> None
          \<longleftrightarrow> status (openDonation\<lparr>status := COMPLETED, receiverId := Some 20\<rparr>)
                \<in> {IN_PROGRESS, PICKED_UP})"
  using reachable_completedDb by (simp add: completedDb_def)

text \<open>
  C1, amended: for every donation reachable through the engine's operations, the receiver
  reference is non-null if and only if the status is IN_PROGRESS, PICKED_UP or COMPLETED,
  that is, if and only if the donation is not OPEN.
\<close>

theorem C1_receiver_iff_not_OPEN:
  assumes "reachable s" and "donations s i = Some d"
  shows "receiverId d \<noteq> None \<longleftrightarrow> status d \<in> {IN_PROGRESS, PICKED_UP, COMPLETED}"
proof -
  have "consistent s" using assms(1) by (rule reachable_consistent)
  then have "receiverId d \<noteq> None \<longleftrightarrow> status d \<noteq> OPEN"
    using assms(2) unfolding consistent_def by blast
  then show ?thesis by (cases "status d") simp_all
qed

theorem C1_receiver_iff_not_OPEN_witness:
  "reachable pickedUpDb
   \<and> donations pickedUpDb 0 = Some (openDonation\<lparr>status := PICKED_UP, receiverId := Some 20\<rparr>)
   \<and> (receiverId (openDonation\<lparr>status := PICKED_UP, receiverId := Some 20\<rparr>) \<noteq> None
        \<longleftrightarrow> status (openDonation\<lparr>status := PICKED_UP, receiverId := Some 20\<rparr>)
              \<in> {IN_PROGRESS, PICKED_UP, COMPLETED})"
  using C1_receiver_iff_not_OPEN[OF reachable_pickedUpDb pickedUpDb_facts(1)]
    reachable_pickedUpDb pickedUpDb_facts(1)
  by simp

subsection \<open>C2: choosing the receiver\<close>

text \<open>
  C2: on a reachable database, for a stored donation, \<^verbatim>\<open>chooseReceiver\<close> called by the donor
  on an OPEN donation for a candidate who has a candidacy succeeds; afterwards the
  donation is IN_PROGRESS with that receiver, its progress record exists with every flag
  false, and no candidacy for the donation is left (the candidates' listing is empty). If
  the actor is not the donor the call fails with Forbidden; if the actor is the donor and
  the status is not OPEN, or the candidate has no candidacy, it fails with
  ValidationFailed. A failed call leaves the database as it was.
\<close>

theorem C2_chooseReceiver:
  assumes "reachable s" and "donations s i = Some d"
  shows "(donorId d = u \<and> status d = OPEN
          \<and> (\<exists>c \<in> set (candidacies s). cand_donationId c = i \<and> cand_userId c = r)
          \<longrightarrow> fst (chooseReceiver i r u s) = Inr (d\<lparr>receiverId := Some r, status := IN_PROGRESS\<rparr>)
              \<and> donations (snd (chooseReceiver i r u s)) i
                  = Some (d\<lparr>receiverId := Some r, status := IN_PROGRESS\<rparr>)
              \<and> progress (snd (chooseReceiver i r u s)) i = Some freshProgress
              \<and> filter (\<lambda>c. cand_donationId c = i) (candidacies (snd (chooseReceiver i r u s))) = []
              \<and> fst (getDonationCandidates i u (snd (chooseReceiver i r u s))) = Inr [])
       \<and> (donorId d \<noteq> u \<longrightarrow> chooseReceiver i r u s = (Inl ForbiddenError, s))
       \<and> (donorId d = u
          \<and> (status d \<noteq> OPEN
              \<or> \<not> (\<exists>c \<in> set (candidacies s). cand_donationId c = i \<and> cand_userId c = r))
          \<longrightarrow> chooseReceiver i r u s = (Inl ValidationError, s))"
proof -
  have np: "status d = OPEN \<Longrightarrow> progress s i = None"
    using assms by (rule reachable_OPEN_no_progress)
  have fnd: "(find (\<lambda>c. cand_donationId c = i \<and> cand_userId c = r) (candidacies s) = None)
      \<longleftrightarrow> \<not> (\<exists>c \<in> set (candidacies s). cand_donationId c = i \<and> cand_userId c = r)"
    by (auto simp: find_None_iff)
  show ?thesis
  proof (intro conjI impI)
    assume "donorId d \<noteq> u"
    then show "chooseReceiver i r u s = (Inl ForbiddenError, s)"
      using assms(2) by (simp add: chooseReceiver_def repo_defs)
  next
    assume a: "donorId d = u
       \<and> (status d \<noteq> OPEN
              \<or> \<not> (\<exists>c \<in> set (candidacies s). cand_donationId c = i \<and> cand_userId c = r))"
    show "chooseReceiver i r u s = (Inl ValidationError, s)"
    proof (cases "status d = OPEN")
      case True
      with a have "find (\<lambda>c. cand_donationId c = i \<and> cand_userId c = r) (candidacies s) = None"
        using fnd by blast
      then show ?thesis
        using assms(2) a True by (simp add: chooseReceiver_def repo_defs)
    next
      case False
      then show ?thesis
        using assms(2) a by (simp add: chooseReceiver_def repo_defs)
    qed
  next
    assume a: "donorId d = u \<and> status d = OPEN
          \<and> (\<exists>c \<in> set (candidacies s). cand_donationId c = i \<and> cand_userId c = r)"
    then obtain c where c: "find (\<lambda>c. cand_donationId c = i \<and> cand_userId c = r) (candidacies s) = Some c"
      using fnd by (cases "find (\<lambda>c. cand_donationId c = i \<and> cand_userId c = r) (candidacies s)") auto
    have run: "chooseReceiver i r u s =
        (Inr (d\<lparr>receiverId := Some r, status := IN_PROGRESS\<rparr>),
         s\<lparr>donations := (donations s)(i \<mapsto> d\<lparr>receiverId := Some r, status := IN_PROGRESS\<rparr>),
           progress := (progress s)(i \<mapsto> freshProgress),
           candidacies := filter (\<lambda>c. cand_donationId c \<noteq> i) (candidacies s)\<rparr>)"
      using assms(2) a c np
      by (simp add: chooseReceiver_def repo_defs Let_def freshProgress_def)
    show "fst (chooseReceiver i r u s) = Inr (d\<lparr>receiverId := Some r, status := IN_PROGRESS\<rparr>)"
      by (simp add: run)
    show "donations (snd (chooseReceiver i r u s)) i
                  = Some (d\<lparr>receiverId := Some r, status := IN_PROGRESS\<rparr>)"
      by (simp add: run)
    show "progress (snd (chooseReceiver i r u s)) i = Some freshProgress"
      by (simp add: run)
    show "filter (\<lambda>c. cand_donationId c = i) (candidacies (snd (chooseReceiver i r u s))) = []"
      by (simp add: run filter_empty_conv)
    show "fst (getDonationCandidates i u (snd (chooseReceiver i r u s))) = Inr []"
      using a by (simp add: run getDonationCandidates_def repo_defs filter_empty_conv)
  qed
qed

theorem C2_chooseReceiver_witness:
  "reachable appliedDb \<and> donations appliedDb 0 = Some openDonation
   \<and> fst (chooseReceiver 0 20 10 appliedDb)
        = Inr (openDonation\<lparr>receiverId := Some 20, status := IN_PROGRESS\<rparr>)
   \<and> progress (snd (chooseReceiver 0 20 10 appliedDb)) 0 = Some freshProgress
   \<and> fst (getDonationCandidates 0 10 (snd (chooseReceiver 0 20 10 appliedDb))) = Inr []
   \<and> chooseReceiver 0 20 20 appliedDb = (Inl ForbiddenError, appliedDb)
   \<and> chooseReceiver 0 30 10 appliedDb = (Inl ValidationError, appliedDb)"
proof -
  have d: "donations appliedDb 0 = Some openDonation" by (simp add: appliedDb_def)
  have ok: "donorId openDonation = 10 \<and> status openDonation = OPEN
      \<and> (\<exists>c \<in> set (candidacies appliedDb). cand_donationId c = 0 \<and> cand_userId c = 20)"
    by (simp add: appliedDb_def openDonation_def)
  have other: "donorId openDonation \<noteq> 20" by (simp add: openDonation_def)
  have none: "donorId openDonation = 10
      \<and> (status openDonation \<noteq> OPEN
          \<or> \<not> (\<exists>c \<in> set (candidacies appliedDb). cand_donationId c = 0 \<and> cand_userId c = 30))"
    by (simp add: appliedDb_def openDonation_def)
  show ?thesis
    using C2_chooseReceiver[OF reachable_appliedDb d, of 10 20] ok
      C2_chooseReceiver[OF reachable_appliedDb d, of 20 20] other
      C2_chooseReceiver[OF reachable_appliedDb d, of 10 30] none
      reachable_appliedDb d
    by blast
qed

subsection \<open>C3: a flag of the other party's half\<close>

text \<open>
  C3: for a donation with a receiver and a progress record, an \<^verbatim>\<open>updateProgress\<close> request by
  the donor that names a flag of the receiver's half, or by the receiver that names a flag
  of the donor's half, fails with Forbidden and leaves the whole database, the progress
  record and the donation with it, as it was: no flag of the request is written, the
  actor's own included.
\<close>

theorem C3_other_half_forbidden:
  assumes "donations s i = Some d" and "receiverId d = Some r" and "progress s i = Some p"
    and "(u = donorId d
          \<and> (upd_pickupConfirmedByReceiver updates \<noteq> None
              \<or> upd_completionConfirmedByReceiver updates \<noteq> None
              \<or> upd_returnConfirmedByReceiver updates \<noteq> None))
       \<or> (u = r
          \<and> (upd_pickupConfirmedByDonor updates \<noteq> None
              \<or> upd_completionConfirmedByDonor updates \<noteq> None
              \<or> upd_returnConfirmedByDonor updates \<noteq> None))"
  shows "updateProgress i u updates s = (Inl ForbiddenError, s)"
proof -
  have "forbiddenFlags d u updates"
    using assms(2,4) unfolding forbiddenFlags_def by auto
  then show ?thesis
    by (simp add: updateProgress_known[OF assms(1-3)])
qed

theorem C3_other_half_forbidden_witness:
  "updateProgress 0 10
     (noUpdates\<lparr>upd_pickupConfirmedByDonor := Some True,
                upd_pickupConfirmedByReceiver := Some True\<rparr>) chosenDb
   = (Inl ForbiddenError, chosenDb)
   \<and> updateProgress 0 20
     (noUpdates\<lparr>upd_completionConfirmedByDonor := Some False\<rparr>) chosenDb
   = (Inl ForbiddenError, chosenDb)"
proof -
  have r: "receiverId (openDonation\<lparr>status := IN_PROGRESS, receiverId := Some 20\<rparr>) = Some 20"
    by simp
  have a: "(10 = donorId (openDonation\<lparr>status := IN_PROGRESS, receiverId := Some 20\<rparr>)
          \<and> (upd_pickupConfirmedByReceiver
                (noUpdates\<lparr>upd_pickupConfirmedByDonor := Some True,
                           upd_pickupConfirmedByReceiver := Some True\<rparr>) \<noteq> None
              \<or> upd_completionConfirmedByReceiver
                (noUpdates\<lparr>upd_pickupConfirmedByDonor := Some True,
                           upd_pickupConfirmedByReceiver := Some True\<rparr>) \<noteq> None
              \<or> upd_returnConfirmedByReceiver
                (noUpdates\<lparr>upd_pickupConfirmedByDonor := Some True,
                           upd_pickupConfirmedByReceiver := Some True\<rparr>) \<noteq> None))
       \<or> ((10::nat) = 20
          \<and> (upd_pickupConfirmedByDonor
                (noUpdates\<lparr>upd_pickupConfirmedByDonor := Some True,
                           upd_pickupConfirmedByReceiver := Some True\<rparr>) \<noteq> None
              \<or> upd_completionConfirmedByDonor
                (noUpdates\<lparr>upd_pickupConfirmedByDonor := Some True,
                           upd_pickupConfirmedByReceiver := Some True\<rparr>) \<noteq> None
              \<or> upd_returnConfirmedByDonor
                (noUpdates\<lparr>upd_pickupConfirmedByDonor := Some True,
                           upd_pickupConfirmedByReceiver := Some True\<rparr>) \<noteq> None))"
    by (simp add: openDonation_def)
  have b: "(20 = donorId (openDonation\<lparr>status := IN_PROGRESS, receiverId := Some 20\<rparr>)
          \<and> (upd_pickupConfirmedByReceiver
                (noUpdates\<lparr>upd_completionConfirmedByDonor := Some False\<rparr>) \<noteq> None
              \<or> upd_completionConfirmedByReceiver
                (noUpdates\<lparr>upd_completionConfirmedByDonor := Some False\<rparr>) \<noteq> None
              \<or> upd_returnConfirmedByReceiver
                (noUpdates\<lparr>upd_completionConfirmedByDonor := Some False\<rparr>) \<noteq> None))
       \<or> ((20::nat) = 20
          \<and> (upd_pickupConfirmedByDonor
                (noUpdates\<lparr>upd_completionConfirmedByDonor := Some False\<rparr>) \<noteq> None
              \<or> upd_completionConfirmedByDonor
                (noUpdates\<lparr>upd_completionConfirmedByDonor := Some False\<rparr>) \<noteq> None
              \<or> upd_returnConfirmedByDonor
                (noUpdates\<lparr>upd_completionConfirmedByDonor := Some False\<rparr>) \<noteq> None))"
    by simp
  show ?thesis
    using C3_other_half_forbidden[OF chosenDb_facts(1) r chosenDb_facts(2) a]
      C3_other_half_forbidden[OF chosenDb_facts(1) r chosenDb_facts(2) b]
    by simp
qed

subsection \<open>C4: completion only after pickup\<close>

lemma completion_newly_true:
  assumes p': "progress (perform rq s) j = Some p'"
    and new: "(completionConfirmedByDonor p' \<and> \<not> flag completionConfirmedByDonor s j)
       \<or> (completionConfirmedByReceiver p' \<and> \<not> flag completionConfirmedByReceiver s j)"
  shows "pickupConfirmedByDonor p' \<and> pickupConfirmedByReceiver p'"
proof (cases "\<exists>i u updates. rq = UpdateProgress i u updates")
  case False
  then have "\<forall>i u updates. rq \<noteq> UpdateProgress i u updates" by blast
  from progress_other_requests[OF this p'] new
  show ?thesis by (auto simp: flag_def freshProgress_def)
next
  case True
  then obtain i u updates where rq: "rq = UpdateProgress i u updates" by blast
  with p' have "progress (snd (updateProgress i u updates s)) j = Some p'" by simp
  from progress_updateProgress[OF this]
  show ?thesis
  proof
    assume "progress s j = Some p'"
    with new show ?thesis by (auto simp: flag_def)
  next
    assume "\<exists>p. j = i \<and> progress s i = Some p \<and> \<not> prematureFlags p updates
        \<and> p' = writeProgress (asProgressData updates) p"
    then obtain p where p: "j = i" "progress s i = Some p" "\<not> prematureFlags p updates"
      "p' = writeProgress (asProgressData updates) p" by blast
    have "upd_completionConfirmedByDonor updates = Some True
          \<or> upd_completionConfirmedByReceiver updates = Some True"
      using new p
      by (auto simp: flag_def writeProgress_def asProgressData_def orElse_def
          split: option.splits)
    with p(3) have "pickupJoint p updates" by (auto simp: prematureFlags_def)
    then show ?thesis
      using p by (simp add: pickupJoint_def writeProgress_def asProgressData_def)
  qed
qed

text \<open>
  C4: no request makes a completion flag true unless both pickup flags are true in the
  record that holds it: whenever a completion flag of a donation is true after a request
  and was not before, both pickup flags of that donation are true after the request. In
  particular, when the donor of a donation with another user as receiver (as every
  reachable donation has, \<open>reachable_receiver_not_donor\<close>) and a fresh all-false progress
  record asks for \<^verbatim>\<open>completionConfirmedByDonor = true\<close> (with or without
  other flags of the donor's half), \<^verbatim>\<open>updateProgress\<close> fails with ValidationFailed and
  writes nothing.
\<close>

theorem C4_completion_needs_pickup:
  "(flag completionConfirmedByDonor (perform rq s) j
      \<and> \<not> flag completionConfirmedByDonor s j
    \<longrightarrow> flag pickupConfirmedByDonor (perform rq s) j
        \<and> flag pickupConfirmedByReceiver (perform rq s) j)
   \<and> (flag completionConfirmedByReceiver (perform rq s) j
      \<and> \<not> flag completionConfirmedByReceiver s j
    \<longrightarrow> flag pickupConfirmedByDonor (perform rq s) j
        \<and> flag pickupConfirmedByReceiver (perform rq s) j)
   \<and> (donations t i = Some d \<and> receiverId d = Some r \<and> r \<noteq> donorId d
      \<and> progress t i = Some freshProgress
      \<and> upd_completionConfirmedByDonor updates = Some True
      \<and> upd_pickupConfirmedByReceiver updates = None
      \<and> upd_completionConfirmedByReceiver updates = None
      \<and> upd_returnConfirmedByReceiver updates = None
    \<longrightarrow> updateProgress i (donorId d) updates t = (Inl ValidationError, t))"
proof (intro conjI impI)
  assume a: "flag completionConfirmedByDonor (perform rq s) j
      \<and> \<not> flag completionConfirmedByDonor s j"
  then obtain p' where p': "progress (perform rq s) j = Some p'"
    by (auto simp: flag_def split: option.splits)
  with a completion_newly_true[OF p']
  show "flag pickupConfirmedByDonor (perform rq s) j"
    and "flag pickupConfirmedByReceiver (perform rq s) j"
    by (simp_all add: flag_def)
next
  assume a: "flag completionConfirmedByReceiver (perform rq s) j
      \<and> \<not> flag completionConfirmedByReceiver s j"
  then obtain p' where p': "progress (perform rq s) j = Some p'"
    by (auto simp: flag_def split: option.splits)
  with a completion_newly_true[OF p']
  show "flag pickupConfirmedByDonor (perform rq s) j"
    and "flag pickupConfirmedByReceiver (perform rq s) j"
    by (simp_all add: flag_def)
next
  assume a: "donations t i = Some d \<and> receiverId d = Some r \<and> r \<noteq> donorId d
      \<and> progress t i = Some freshProgress
      \<and> upd_completionConfirmedByDonor updates = Some True
      \<and> upd_pickupConfirmedByReceiver updates = None
      \<and> upd_completionConfirmedByReceiver updates = None
      \<and> upd_returnConfirmedByReceiver updates = None"
  then have d: "donations t i = Some d" and r: "receiverId d = Some r"
    and p: "progress t i = Some freshProgress" by simp_all
  have "\<not> forbiddenFlags d (donorId d) updates"
    using a by (auto simp: forbiddenFlags_def)
  moreover have "prematureFlags freshProgress updates"
    using a by (simp add: prematureFlags_def pickupJoint_def freshProgress_def orElse_def)
  ultimately show "updateProgress i (donorId d) updates t = (Inl ValidationError, t)"
    by (simp add: updateProgress_known[OF d r p])
qed

theorem C4_completion_needs_pickup_witness:
  "flag completionConfirmedByDonor
      (perform (UpdateProgress 0 10 (noUpdates\<lparr>upd_completionConfirmedByDonor := Some True\<rparr>))
         pickedUpDb) 0
   \<and> \<not> flag completionConfirmedByDonor pickedUpDb 0
   \<and> flag pickupConfirmedByDonor donorCompletedDb 0
   \<and> flag pickupConfirmedByReceiver donorCompletedDb 0
   \<and> flag completionConfirmedByReceiver
      (perform (UpdateProgress 0 20 (noUpdates\<lparr>upd_completionConfirmedByReceiver := Some True\<rparr>))
         donorCompletedDb) 0
   \<and> \<not> flag completionConfirmedByReceiver donorCompletedDb 0
   \<and> flag pickupConfirmedByDonor completedDb 0
   \<and> flag pickupConfirmedByReceiver completedDb 0
   \<and> updateProgress 0 10 (noUpdates\<lparr>upd_completionConfirmedByDonor := Some True\<rparr>) chosenDb
       = (Inl ValidationError, chosenDb)"
proof -
  have a: "flag completionConfirmedByDonor donorCompletedDb 0
      \<and> \<not> flag completionConfirmedByDonor pickedUpDb 0"
    by (simp add: flag_def run_defs)
  have b: "flag completionConfirmedByReceiver completedDb 0
      \<and> \<not> flag completionConfirmedByReceiver donorCompletedDb 0"
    by (simp add: flag_def run_defs)
  have c: "donations chosenDb 0 = Some (openDonation\<lparr>status := IN_PROGRESS, receiverId := Some 20\<rparr>)
      \<and> receiverId (openDonation\<lparr>status := IN_PROGRESS, receiverId := Some 20\<rparr>) = Some 20
      \<and> 20 \<noteq> donorId (openDonation\<lparr>status := IN_PROGRESS, receiverId := Some 20\<rparr>)
      \<and> progress chosenDb 0 = Some freshProgress
      \<and> upd_completionConfirmedByDonor (noUpdates\<lparr>upd_completionConfirmedByDonor := Some True\<rparr>)
          = Some True
      \<and> upd_pickupConfirmedByReceiver (noUpdates\<lparr>upd_completionConfirmedByDonor := Some True\<rparr>)
          = None
      \<and> upd_completionConfirmedByReceiver (noUpdates\<lparr>upd_completionConfirmedByDonor := Some True\<rparr>)
          = None
      \<and> upd_returnConfirmedByReceiver (noUpdates\<lparr>upd_completionConfirmedByDonor := Some True\<rparr>)
          = None"
    by (simp add: chosenDb_facts openDonation_def noUpdates_def)
  have e: "donorId (openDonation\<lparr>status := IN_PROGRESS, receiverId := Some 20\<rparr>) = 10"
    by (simp add: openDonation_def)
  show ?thesis
    using C4_completion_needs_pickup[of
        "UpdateProgress 0 10 (noUpdates\<lparr>upd_completionConfirmedByDonor := Some True\<rparr>)"
        pickedUpDb 0 chosenDb 0
        "openDonation\<lparr>status := IN_PROGRESS, receiverId := Some 20\<rparr>" 20
        "noUpdates\<lparr>upd_completionConfirmedByDonor := Some True\<rparr>"]
      C4_completion_needs_pickup[of
        "UpdateProgress 0 20 (noUpdates\<lparr>upd_completionConfirmedByReceiver := Some True\<rparr>)"
        donorCompletedDb 0 chosenDb 0
        "openDonation\<lparr>status := IN_PROGRESS, receiverId := Some 20\<rparr>" 20
        "noUpdates\<lparr>upd_completionConfirmedByDonor := Some True\<rparr>"]
      a b c e
    unfolding donorCompletedDb_run completedDb_run
    by simp
qed

subsection \<open>C5: return confirmations before the return is signaled\<close>

text \<open>
  C5 says that no operation sets \<^verbatim>\<open>returnConfirmedByDonor\<close> or \<^verbatim>\<open>returnConfirmedByReceiver\<close>
  while \<^verbatim>\<open>returnSignaledByReceiver\<close> is false. \<^verbatim>\<open>confirmReturn\<close> checks the signal;
  \<^verbatim>\<open>updateProgress\<close> accepts both flags and never looks at it. Right after the receiver was
  chosen, with every flag false, the donor's request \<^verbatim>\<open>{ returnConfirmedByDonor: true }\<close>
  succeeds and the flag is written.
\<close>

theorem C5_return_confirmed_without_signal:
  "reachable chosenDb
   \<and> progress chosenDb 0 = Some freshProgress
   \<and> \<not> returnSignaledByReceiver freshProgress
   \<and> updateProgress 0 10 (noUpdates\<lparr>upd_returnConfirmedByDonor := Some True\<rparr>) chosenDb
      = (Inr (openDonation\<lparr>status := IN_PROGRESS, receiverId := Some 20\<rparr>,
              Some (freshProgress\<lparr>returnConfirmedByDonor := True\<rparr>)),
         chosenDb\<lparr>progress := [0 \<mapsto> freshProgress\<lparr>returnConfirmedByDonor := True\<rparr>]\<rparr>)
   \<and> \<not> returnSignaledByReceiver (freshProgress\<lparr>returnConfirmedByDonor := True\<rparr>)
   \<and> returnConfirmedByDonor (freshProgress\<lparr>returnConfirmedByDonor := True\<rparr>)"
proof -
  have "updateProgress 0 10 (noUpdates\<lparr>upd_returnConfirmedByDonor := Some True\<rparr>) chosenDb
      = (Inr (openDonation\<lparr>status := IN_PROGRESS, receiverId := Some 20\<rparr>,
              Some (freshProgress\<lparr>returnConfirmedByDonor := True\<rparr>)),
         chosenDb\<lparr>progress := [0 \<mapsto> freshProgress\<lparr>returnConfirmedByDonor := True\<rparr>]\<rparr>)"
    by (subst updateProgress_known[OF chosenDb_facts(1) _ chosenDb_facts(2)])
       (simp_all add: eval_defs run_defs)
  then show ?thesis
    using reachable_chosenDb chosenDb_facts(2) by (simp add: freshProgress_def)
qed

text \<open>Read on the flags of donation 0: confirmed by the donor, never signaled.\<close>

theorem C5_return_confirmed_without_signal_witness:
  "\<not> flag returnSignaledByReceiver chosenDb 0
   \<and> flag returnConfirmedByDonor
       (snd (updateProgress 0 10 (noUpdates\<lparr>upd_returnConfirmedByDonor := Some True\<rparr>) chosenDb)) 0
   \<and> \<not> flag returnSignaledByReceiver
       (snd (updateProgress 0 10 (noUpdates\<lparr>upd_returnConfirmedByDonor := Some True\<rparr>) chosenDb)) 0"
  using C5_return_confirmed_without_signal
  by (simp add: flag_def)

subsection \<open>C6: rejected applications\<close>

text \<open>
  C6 says that \<^verbatim>\<open>applyForDonation\<close> fails with Conflict when the applicant already has a
  candidacy for the donation. The service looks the candidacy up first and throws
  \<^verbatim>\<open>ValidationError\<close> itself; in the worked run, user 20 applying a second time gets
  ValidationFailed, not Conflict.
\<close>

theorem C6_counterexample:
  "reachable appliedDb
   \<and> find (\<lambda>c. cand_donationId c = 0 \<and> cand_userId c = 20) (candidacies appliedDb)
       = Some \<lparr>candidacy_id = 1, cand_donationId = 0, cand_userId = 20\<rparr>
   \<and> applyForDonation 0 20 appliedDb = (Inl ValidationError, appliedDb)
   \<and> fst (applyForDonation 0 20 appliedDb) \<noteq> Inl ConflictError"
  using reachable_appliedDb
  by (simp add: applyForDonation_def repo_defs appliedDb_def openDonation_def)

text \<open>
  C6, amended: for a stored donation, \<^verbatim>\<open>applyForDonation\<close> fails with ValidationFailed when
  a candidacy already exists for the (donation, applicant) pair, when the applicant is the
  donation's donor, or when the donation's status is not OPEN; on any of these failures no
  candidacy is created: the database is left as it was.
\<close>

theorem C6_apply_rejected:
  assumes "donations s i = Some d"
    and "(\<exists>c \<in> set (candidacies s). cand_donationId c = i \<and> cand_userId c = u)
         \<or> donorId d = u \<or> status d \<noteq> OPEN"
  shows "applyForDonation i u s = (Inl ValidationError, s)"
proof -
  have "(find (\<lambda>c. cand_donationId c = i \<and> cand_userId c = u) (candidacies s) \<noteq> None)
      \<or> donorId d = u \<or> status d \<noteq> OPEN"
    using assms(2) by (auto simp: find_None_iff)
  then show ?thesis
    using assms(1) by (auto simp: applyForDonation_def repo_defs)
qed

theorem C6_apply_rejected_witness:
  "applyForDonation 0 20 appliedDb = (Inl ValidationError, appliedDb)
   \<and> applyForDonation 0 10 appliedDb = (Inl ValidationError, appliedDb)
   \<and> applyForDonation 0 30 chosenDb = (Inl ValidationError, chosenDb)"
proof -
  have d: "donations appliedDb 0 = Some openDonation" by (simp add: appliedDb_def)
  have a: "(\<exists>c \<in> set (candidacies appliedDb). cand_donationId c = 0 \<and> cand_userId c = 20)
         \<or> donorId openDonation = 20 \<or> status openDonation \<noteq> OPEN"
    by (simp add: appliedDb_def)
  have b: "(\<exists>c \<in> set (candidacies appliedDb). cand_donationId c = 0 \<and> cand_userId c = 10)
         \<or> donorId openDonation = 10 \<or> status openDonation \<noteq> OPEN"
    by (simp add: openDonation_def)
  have c: "(\<exists>c \<in> set (candidacies chosenDb). cand_donationId c = 0 \<and> cand_userId c = 30)
         \<or> donorId (openDonation\<lparr>status := IN_PROGRESS, receiverId := Some 20\<rparr>) = 30
         \<or> status (openDonation\<lparr>status := IN_PROGRESS, receiverId := Some 20\<rparr>) \<noteq> OPEN"
    by simp
  show ?thesis
    using C6_apply_rejected[OF d a] C6_apply_rejected[OF d b]
      C6_apply_rejected[OF chosenDb_facts(1) c]
    by simp
qed

subsection \<open>C7: the return round trip\<close>

lemma writeProgress_single:
  "writeProgress (noProgressData\<lparr>data_returnConfirmedByDonor := Some b\<rparr>) p
     = p\<lparr>returnConfirmedByDonor := b\<rparr>"
  "writeProgress (noProgressData\<lparr>data_returnConfirmedByReceiver := Some b\<rparr>) p
     = p\<lparr>returnConfirmedByReceiver := b\<rparr>"
  "writeProgress (noProgressData\<lparr>data_returnSignaledByReceiver := Some b\<rparr>) p
     = p\<lparr>returnSignaledByReceiver := b\<rparr>"
  by (cases p; simp add: writeProgress_def noProgressData_def orElse_def)+

lemma confirmReturn_last:
  assumes d: "donations s i = Some d" and p: "progress s i = Some p"
    and sg: "returnSignaledByReceiver p"
    and who: "(u = donorId d \<and> returnConfirmedByReceiver p)
              \<or> (u \<noteq> donorId d \<and> receiverId d = Some u \<and> returnConfirmedByDonor p)"
  shows "confirmReturn i u s =
     (Inr ReturnCompleted,
      s\<lparr>donations := (donations s)
           (i \<mapsto> d\<lparr>receiverId := None, status := OPEN, returnReason := None\<rparr>),
        progress := (progress s)(i := None)\<rparr>)"
  using assms
  by (auto simp: confirmReturn_def repo_defs Let_def writeProgress_single)

lemma confirmReturn_first:
  assumes d: "donations s i = Some d" and p: "progress s i = Some p"
    and sg: "returnSignaledByReceiver p"
  shows "u = donorId d \<Longrightarrow> \<not> returnConfirmedByReceiver p \<Longrightarrow>
         confirmReturn i u s =
           (Inr ConfirmationRegistered,
            s\<lparr>progress := (progress s)(i \<mapsto> p\<lparr>returnConfirmedByDonor := True\<rparr>)\<rparr>)"
    and "u \<noteq> donorId d \<Longrightarrow> receiverId d = Some u \<Longrightarrow> \<not> returnConfirmedByDonor p \<Longrightarrow>
         confirmReturn i u s =
           (Inr ConfirmationRegistered,
            s\<lparr>progress := (progress s)(i \<mapsto> p\<lparr>returnConfirmedByReceiver := True\<rparr>)\<rparr>)"
  using assms
  by (auto simp: confirmReturn_def repo_defs Let_def writeProgress_single)

lemma confirmReturn_after_reopen:
  assumes "donations s i = Some d" and "progress s i = None" and "receiverId d = None"
  shows "snd (confirmReturn i u s) = s"
  using assms by (auto simp: confirmReturn_def repo_defs Let_def)

text \<open>
  C7: start from a donation in PICKED_UP with a receiver other than the donor (as every
  reachable donation has, \<open>reachable_receiver_not_donor\<close>), whose progress record has \<^verbatim>\<open>returnSignaledByReceiver\<close> true. After the donor and the receiver have
  each called \<^verbatim>\<open>confirmReturn\<close>, in either order, the donation is OPEN, its receiver and its
  return reason are null (nothing else in it has changed), and its progress record is
  gone. The donation takes applications again: any user other than the donor who had no
  candidacy for it applies with success, and the candidacy is stored.
\<close>

theorem C7_return_round_trip:
  assumes d: "donations s i = Some d" and st: "status d = PICKED_UP"
    and r: "receiverId d = Some r" and ne: "r \<noteq> donorId d"
    and p: "progress s i = Some p" and sg: "returnSignaledByReceiver p"
    and order: "s' = snd (confirmReturn i r (snd (confirmReturn i (donorId d) s)))
                \<or> s' = snd (confirmReturn i (donorId d) (snd (confirmReturn i r s)))"
  shows "donations s' i = Some (d\<lparr>receiverId := None, status := OPEN, returnReason := None\<rparr>)
     \<and> progress s' i = None
     \<and> (\<forall>u. u \<noteq> donorId d
             \<and> \<not> (\<exists>c \<in> set (candidacies s). cand_donationId c = i \<and> cand_userId c = u)
          \<longrightarrow> fst (applyForDonation i u s')
                = Inr \<lparr>candidacy_id = nextObjectId s', cand_donationId = i, cand_userId = u\<rparr>
              \<and> \<lparr>candidacy_id = nextObjectId s', cand_donationId = i, cand_userId = u\<rparr>
                  \<in> set (candidacies (snd (applyForDonation i u s'))))"
proof -
  let ?d0 = "d\<lparr>receiverId := None, status := OPEN, returnReason := None\<rparr>"
  let ?F = "s\<lparr>donations := (donations s)(i \<mapsto> ?d0), progress := (progress s)(i := None)\<rparr>"
  have reopened: "snd (confirmReturn i u ?F) = ?F" for u
    by (rule confirmReturn_after_reopen[of _ _ ?d0]) simp_all
  have donor_first: "snd (confirmReturn i r (snd (confirmReturn i (donorId d) s))) = ?F"
  proof (cases "returnConfirmedByReceiver p")
    case True
    then have "confirmReturn i (donorId d) s = (Inr ReturnCompleted, ?F)"
      using confirmReturn_last[OF d p sg, of "donorId d"] by simp
    then show ?thesis by (simp add: reopened)
  next
    case False
    let ?s1 = "s\<lparr>progress := (progress s)(i \<mapsto> p\<lparr>returnConfirmedByDonor := True\<rparr>)\<rparr>"
    have 1: "confirmReturn i (donorId d) s = (Inr ConfirmationRegistered, ?s1)"
      using confirmReturn_first(1)[OF d p sg, of "donorId d"] False by simp
    have "confirmReturn i r ?s1 =
       (Inr ReturnCompleted,
        ?s1\<lparr>donations := (donations ?s1)(i \<mapsto> ?d0), progress := (progress ?s1)(i := None)\<rparr>)"
      by (rule confirmReturn_last[of _ _ _ "p\<lparr>returnConfirmedByDonor := True\<rparr>"])
         (use d r ne sg in simp_all)
    then show ?thesis by (simp add: 1)
  qed
  have receiver_first: "snd (confirmReturn i (donorId d) (snd (confirmReturn i r s))) = ?F"
  proof (cases "returnConfirmedByDonor p")
    case True
    then have "confirmReturn i r s = (Inr ReturnCompleted, ?F)"
      using confirmReturn_last[OF d p sg, of r] r ne by simp
    then show ?thesis by (simp add: reopened)
  next
    case False
    let ?s1 = "s\<lparr>progress := (progress s)(i \<mapsto> p\<lparr>returnConfirmedByReceiver := True\<rparr>)\<rparr>"
    have 1: "confirmReturn i r s = (Inr ConfirmationRegistered, ?s1)"
      using confirmReturn_first(2)[OF d p sg, of r] False r ne by simp
    have "confirmReturn i (donorId d) ?s1 =
       (Inr ReturnCompleted,
        ?s1\<lparr>donations := (donations ?s1)(i \<mapsto> ?d0), progress := (progress ?s1)(i := None)\<rparr>)"
      by (rule confirmReturn_last[of _ _ _ "p\<lparr>returnConfirmedByReceiver := True\<rparr>"])
         (use d sg in simp_all)
    then show ?thesis by (simp add: 1)
  qed
  from order donor_first receiver_first have s': "s' = ?F" by auto
  have applies: "fst (applyForDonation i u ?F)
                = Inr \<lparr>candidacy_id = nextObjectId ?F, cand_donationId = i, cand_userId = u\<rparr>
              \<and> \<lparr>candidacy_id = nextObjectId ?F, cand_donationId = i, cand_userId = u\<rparr>
                  \<in> set (candidacies (snd (applyForDonation i u ?F)))"
    if "u \<noteq> donorId d"
      and "\<not> (\<exists>c \<in> set (candidacies s). cand_donationId c = i \<and> cand_userId c = u)" for u
  proof -
    from that(2)
    have "find (\<lambda>c. cand_donationId c = i \<and> cand_userId c = u) (candidacies s) = None"
      by (auto simp: find_None_iff)
    then show ?thesis
      using that(1) by (simp add: applyForDonation_def repo_defs Let_def)
  qed
  show ?thesis
    unfolding s' using applies by simp
qed

theorem C7_return_round_trip_witness:
  "donations (snd (confirmReturn 0 20 (snd (confirmReturn 0 10 returningDb)))) 0 = Some openDonation
   \<and> progress (snd (confirmReturn 0 20 (snd (confirmReturn 0 10 returningDb)))) 0 = None
   \<and> fst (applyForDonation 0 30 (snd (confirmReturn 0 20 (snd (confirmReturn 0 10 returningDb)))))
       = Inr \<lparr>candidacy_id = 2, cand_donationId = 0, cand_userId = 30\<rparr>"
proof -
  let ?d = "openDonation\<lparr>status := PICKED_UP, receiverId := Some 20,
                         returnReason := Some ''item damaged''\<rparr>"
  let ?p = "freshProgress\<lparr>pickupConfirmedByDonor := True, pickupConfirmedByReceiver := True,
                         returnSignaledByReceiver := True\<rparr>"
  let ?s' = "snd (confirmReturn 0 20 (snd (confirmReturn 0 10 returningDb)))"
  have d: "donations returningDb 0 = Some ?d" and p: "progress returningDb 0 = Some ?p"
    by (simp_all add: returningDb_def)
  have st: "status ?d = PICKED_UP" and r: "receiverId ?d = Some 20"
    and ne: "20 \<noteq> donorId ?d" and sg: "returnSignaledByReceiver ?p"
    and dn: "donorId ?d = 10"
    by (simp_all add: openDonation_def)
  have order: "?s' = snd (confirmReturn 0 20 (snd (confirmReturn 0 (donorId ?d) returningDb)))
      \<or> ?s' = snd (confirmReturn 0 (donorId ?d) (snd (confirmReturn 0 20 returningDb)))"
    by (simp add: dn)
  have u: "30 \<noteq> donorId ?d
      \<and> \<not> (\<exists>c \<in> set (candidacies returningDb). cand_donationId c = 0 \<and> cand_userId c = 30)"
    by (simp add: run_defs)
  have again: "?d\<lparr>receiverId := None, status := OPEN, returnReason := None\<rparr> = openDonation"
    by (simp add: openDonation_def)
  have nx: "nextObjectId ?s' = 2"
    by (simp add: confirmReturn_def repo_defs Let_def writeProgress_single run_defs)
  show ?thesis
    using C7_return_round_trip[OF d st r ne p sg order] u again nx
    by simp
qed

subsection \<open>C8: the edit history\<close>

lemma update_new_key: "k \<notin> fst ` set al \<Longrightarrow> AList.update k v al = al @ [(k, v)]"
  by (induction al) auto

lemma differences_fold:
  assumes "distinct (map fst newObj)" and "fst ` set newObj \<inter> fst ` set acc = {}"
  shows "fold (\<lambda>(key, nv) differences.
             if nv \<noteq> None \<and> oldObj key \<noteq> nv
             then AList.update key \<lparr>oldValue = oldObj key, newValue = nv\<rparr> differences
             else differences) newObj acc
     = acc @ map (\<lambda>(key, nv). (key, \<lparr>oldValue = oldObj key, newValue = nv\<rparr>))
               (filter (\<lambda>(key, nv). nv \<noteq> None \<and> oldObj key \<noteq> nv) newObj)"
  using assms
proof (induction newObj arbitrary: acc)
  case Nil
  then show ?case by simp
next
  case (Cons e rest)
  obtain k nv where e: "e = (k, nv)" by (cases e)
  from Cons.prems have dist: "distinct (map fst rest)" and k_rest: "k \<notin> fst ` set rest"
    and k_acc: "k \<notin> fst ` set acc" and disj: "fst ` set rest \<inter> fst ` set acc = {}"
    by (auto simp: e)
  show ?case
  proof (cases "nv \<noteq> None \<and> oldObj k \<noteq> nv")
    case True
    have "fst ` set rest \<inter> fst ` set (acc @ [(k, \<lparr>oldValue = oldObj k, newValue = nv\<rparr>)]) = {}"
      using disj k_rest by auto
    from Cons.IH[OF dist this] True show ?thesis
      by (simp add: e update_new_key[OF k_acc])
  next
    case False
    from Cons.IH[OF dist disj] False show ?thesis
      by (auto simp: e)
  qed
qed

lemma getObjectDifferences_distinct:
  "distinct (map fst newObj) \<Longrightarrow>
   getObjectDifferences oldObj newObj
     = map (\<lambda>(key, nv). (key, \<lparr>oldValue = oldObj key, newValue = nv\<rparr>))
         (filter (\<lambda>(key, nv). nv \<noteq> None \<and> oldObj key \<noteq> nv) newObj)"
  unfolding getObjectDifferences_def
  using differences_fold[of newObj "[]" oldObj] by simp

lemma writeFields_lookup:
  "distinct (map fst data) \<Longrightarrow>
   writeFields data f key
     = (case map_of data key of Some (Some x) \<Rightarrow> x | _ \<Rightarrow> f key)"
  unfolding writeFields_def
proof (induction data arbitrary: f)
  case Nil
  then show ?case by simp
next
  case (Cons e rest)
  obtain k nv where e: "e = (k, nv)" by (cases e)
  from Cons.prems have dist: "distinct (map fst rest)" and k_rest: "k \<notin> fst ` set rest"
    by (auto simp: e)
  then have none: "map_of rest k = None" by (simp add: map_of_eq_None_iff)
  show ?case
    using Cons.IH[OF dist] none
    by (cases nv) (auto simp: e split: option.splits)
qed


lemma writeFields_single_change:
  assumes dist: "distinct (map fst data)"
    and one: "filter (\<lambda>(key, nv). nv \<noteq> None \<and> Some (f key) \<noteq> nv) data = [(k, Some v)]"
  shows "writeFields data f = f(k := v)"
proof
  fix key
  let ?P = "\<lambda>(key, nv). nv \<noteq> None \<and> Some (f key) \<noteq> nv"
  have in_filter: "e \<in> set (filter ?P data) \<longleftrightarrow> e = (k, Some v)" for e
    unfolding one by simp
  have mem: "(k, Some v) \<in> set data"
    using in_filter[of "(k, Some v)"] by simp
  have only: "x = f key'" if "(key', Some x) \<in> set data" "key' \<noteq> k" for key' x
  proof (rule ccontr)
    assume "x \<noteq> f key'"
    with that(1) have "(key', Some x) \<in> set (filter ?P data)" by auto
    with in_filter[of "(key', Some x)"] that(2) show False by simp
  qed
  from mem dist have at_k: "map_of data k = Some (Some v)" by simp
  show "writeFields data f key = (f(k := v)) key"
  proof (cases "key = k")
    case True
    with at_k show ?thesis by (simp add: writeFields_lookup[OF dist])
  next
    case False
    show ?thesis
    proof (cases "map_of data key")
      case None
      with False show ?thesis by (simp add: writeFields_lookup[OF dist])
    next
      case (Some nv)
      then have m: "(key, nv) \<in> set data" by (rule map_of_SomeD)
      show ?thesis
      proof (cases nv)
        case None
        with Some False show ?thesis by (simp add: writeFields_lookup[OF dist])
      next
        case inner: (Some x)
        with m False have "x = f key" using only by blast
        with Some inner False show ?thesis by (simp add: writeFields_lookup[OF dist])
      qed
    qed
  qed
qed


text \<open>
  C8. The new object lists each key once (\<open>distinct\<close>), as a JavaScript object does. Then
  the differences are, in the order of the keys, exactly the keys present in the new
  object whose value is defined and differs from the old object's, each with the old
  value and the new one. In \<^verbatim>\<open>updateDonation\<close>, by the donor on an OPEN donation: when the
  differences are empty the stored donation is returned and the database, its edit
  history included, is left as it was; when exactly one field \<open>k\<close> genuinely changes, to
  \<open>v\<close>, the field is written and exactly one entry is appended to the edit history,
  holding that field alone with its old value and \<open>v\<close>.
\<close>

theorem C8_edit_history:
  "(distinct (map fst newObj)
    \<longrightarrow> getObjectDifferences oldObj newObj
        = map (\<lambda>(key, nv). (key, \<lparr>oldValue = oldObj key, newValue = nv\<rparr>))
            (filter (\<lambda>(key, nv). nv \<noteq> None \<and> oldObj key \<noteq> nv) newObj))
   \<and> (donations s i = Some d \<and> donorId d = u \<and> status d = OPEN
      \<and> getObjectDifferences (donationObject d) data = []
    \<longrightarrow> updateDonation i u data s = (Inr d, s))
   \<and> (donations s i = Some d \<and> donorId d = u \<and> status d = OPEN
      \<and> distinct (map fst data)
      \<and> filter (\<lambda>(key, nv). nv \<noteq> None \<and> Some (attrs d key) \<noteq> nv) data = [(k, Some v)]
    \<longrightarrow> updateDonation i u data s
        = (Inr (d\<lparr>attrs := (attrs d)(k := v)\<rparr>),
           s\<lparr>donations := (donations s)(i \<mapsto> d\<lparr>attrs := (attrs d)(k := v)\<rparr>),
             editHistory := editHistory s
                @ [\<lparr>hist_donationId = i,
                    changedFields = [(k, \<lparr>oldValue = Some (attrs d k), newValue = Some v\<rparr>)]\<rparr>]\<rparr>))"
proof (intro conjI impI)
  assume "distinct (map fst newObj)"
  then show "getObjectDifferences oldObj newObj
        = map (\<lambda>(key, nv). (key, \<lparr>oldValue = oldObj key, newValue = nv\<rparr>))
            (filter (\<lambda>(key, nv). nv \<noteq> None \<and> oldObj key \<noteq> nv) newObj)"
    by (rule getObjectDifferences_distinct)
next
  assume "donations s i = Some d \<and> donorId d = u \<and> status d = OPEN
      \<and> getObjectDifferences (donationObject d) data = []"
  then show "updateDonation i u data s = (Inr d, s)"
    by (simp add: updateDonation_def repo_defs)
next
  assume a: "donations s i = Some d \<and> donorId d = u \<and> status d = OPEN
      \<and> distinct (map fst data)
      \<and> filter (\<lambda>(key, nv). nv \<noteq> None \<and> Some (attrs d key) \<noteq> nv) data = [(k, Some v)]"
  then have dist: "distinct (map fst data)"
    and one: "filter (\<lambda>(key, nv). nv \<noteq> None \<and> Some (attrs d key) \<noteq> nv) data = [(k, Some v)]"
    by simp_all
  have diff: "getObjectDifferences (donationObject d) data
      = [(k, \<lparr>oldValue = Some (attrs d k), newValue = Some v\<rparr>)]"
    using one by (simp add: getObjectDifferences_distinct[OF dist] donationObject_def)
  have written: "writeFields data (attrs d) = (attrs d)(k := v)"
    using dist one by (rule writeFields_single_change)
  show "updateDonation i u data s
        = (Inr (d\<lparr>attrs := (attrs d)(k := v)\<rparr>),
           s\<lparr>donations := (donations s)(i \<mapsto> d\<lparr>attrs := (attrs d)(k := v)\<rparr>),
             editHistory := editHistory s
                @ [\<lparr>hist_donationId = i,
                    changedFields = [(k, \<lparr>oldValue = Some (attrs d k), newValue = Some v\<rparr>)]\<rparr>]\<rparr>)"
    using a by (simp add: updateDonation_def repo_defs Let_def diff written)
qed

theorem C8_edit_history_witness:
  "getObjectDifferences (donationObject openDonation)
       [(Title, Some ''Sofa''), (City, Some ''Olinda''), (Street, None)]
     = [(City, \<lparr>oldValue = Some ''Recife'', newValue = Some ''Olinda''\<rparr>)]
   \<and> updateDonation 0 10 [(Title, Some ''Sofa''), (Street, None)] appliedDb
     = (Inr openDonation, appliedDb)
   \<and> updateDonation 0 10 [(Title, Some ''Sofa''), (City, Some ''Olinda''), (Street, None)] appliedDb
     = (Inr (openDonation\<lparr>attrs := (attrs openDonation)(City := ''Olinda'')\<rparr>),
        appliedDb\<lparr>donations := (donations appliedDb)
                    (0 \<mapsto> openDonation\<lparr>attrs := (attrs openDonation)(City := ''Olinda'')\<rparr>),
                  editHistory := editHistory appliedDb
                    @ [\<lparr>hist_donationId = 0,
                        changedFields = [(City, \<lparr>oldValue = Some (attrs openDonation City),
                                                 newValue = Some ''Olinda''\<rparr>)]\<rparr>]\<rparr>)"
proof -
  have d: "donations appliedDb 0 = Some openDonation \<and> donorId openDonation = 10
      \<and> status openDonation = OPEN"
    by (simp add: appliedDb_def openDonation_def)
  have dist: "distinct (map fst [(Title, Some ''Sofa''), (City, Some ''Olinda''), (Street, None)])"
    by simp
  have same: "getObjectDifferences (donationObject openDonation)
      [(Title, Some ''Sofa''), (Street, None)] = []"
    by (simp add: getObjectDifferences_def donationObject_def openDonation_def sofa_def)
  have one: "filter (\<lambda>(key, nv). nv \<noteq> None \<and> Some (attrs openDonation key) \<noteq> nv)
        [(Title, Some ''Sofa''), (City, Some ''Olinda''), (Street, None)]
      = [(City, Some ''Olinda'')]"
    by (simp add: openDonation_def sofa_def)
  have old: "filter (\<lambda>(key, nv). nv \<noteq> None \<and> donationObject openDonation key \<noteq> nv)
        [(Title, Some ''Sofa''), (City, Some ''Olinda''), (Street, None)]
      = [(City, Some ''Olinda'')]"
    by (simp add: donationObject_def openDonation_def sofa_def)
  have at: "donationObject openDonation City = Some ''Recife''"
    by (simp add: donationObject_def openDonation_def sofa_def)
  note unchanged = C8_edit_history[of
        "[(Title, Some ''Sofa''), (City, Some ''Olinda''), (Street, None)]"
        "donationObject openDonation" appliedDb 0 openDonation 10
        "[(Title, Some ''Sofa''), (Street, None)]" City "''Olinda''"]
  note changed = C8_edit_history[of
        "[(Title, Some ''Sofa''), (City, Some ''Olinda''), (Street, None)]"
        "donationObject openDonation" appliedDb 0 openDonation 10
        "[(Title, Some ''Sofa''), (City, Some ''Olinda''), (Street, None)]" City "''Olinda''"]
  have h2: "donations appliedDb 0 = Some openDonation \<and> donorId openDonation = 10
      \<and> status openDonation = OPEN
      \<and> getObjectDifferences (donationObject openDonation)
           [(Title, Some ''Sofa''), (Street, None)] = []"
    using d same by (intro conjI) simp_all
  have h3: "donations appliedDb 0 = Some openDonation \<and> donorId openDonation = 10
      \<and> status openDonation = OPEN
      \<and> distinct (map fst [(Title, Some ''Sofa''), (City, Some ''Olinda''), (Street, None)])
      \<and> filter (\<lambda>(key, nv). nv \<noteq> None \<and> Some (attrs openDonation key) \<noteq> nv)
           [(Title, Some ''Sofa''), (City, Some ''Olinda''), (Street, None)]
         = [(City, Some ''Olinda'')]"
    using d dist one by (intro conjI) simp_all
  have p1: "getObjectDifferences (donationObject openDonation)
       [(Title, Some ''Sofa''), (City, Some ''Olinda''), (Street, None)]
     = [(City, \<lparr>oldValue = Some ''Recife'', newValue = Some ''Olinda''\<rparr>)]"
    using unchanged[THEN conjunct1, THEN mp, OF dist] unfolding old by (simp add: at)
  note p2 = unchanged[THEN conjunct2, THEN conjunct1, THEN mp, OF h2]
  note p3 = changed[THEN conjunct2, THEN conjunct2, THEN mp, OF h3]
  from p1 p2 p3 show ?thesis by (intro conjI)
qed

subsection \<open>C9: confirming a return twice\<close>

text \<open>
  C9: for a stored donation whose progress record has \<^verbatim>\<open>returnSignaledByReceiver\<close> true, let
  one party (the donor, or the receiver) call \<^verbatim>\<open>confirmReturn\<close> while the other party has
  not confirmed. The call succeeds; a second call by the same party succeeds as well and
  leaves the database, the donation and the progress record with it, exactly as the
  first call left it.
\<close>

theorem C9_confirmReturn_idempotent:
  assumes "donations s i = Some d" and "progress s i = Some p"
    and "returnSignaledByReceiver p"
    and "(u = donorId d \<and> \<not> returnConfirmedByReceiver p)
         \<or> (u \<noteq> donorId d \<and> receiverId d = Some u \<and> \<not> returnConfirmedByDonor p)"
  shows "fst (confirmReturn i u s) = Inr ConfirmationRegistered
     \<and> confirmReturn i u (snd (confirmReturn i u s))
         = (Inr ConfirmationRegistered, snd (confirmReturn i u s))"
  using assms
  by (auto simp: confirmReturn_def repo_defs Let_def writeProgress_single)

theorem C9_confirmReturn_idempotent_witness:
  "fst (confirmReturn 0 10 returningDb) = Inr ConfirmationRegistered
   \<and> confirmReturn 0 10 (snd (confirmReturn 0 10 returningDb))
       = (Inr ConfirmationRegistered, snd (confirmReturn 0 10 returningDb))
   \<and> fst (confirmReturn 0 20 returningDb) = Inr ConfirmationRegistered
   \<and> confirmReturn 0 20 (snd (confirmReturn 0 20 returningDb))
       = (Inr ConfirmationRegistered, snd (confirmReturn 0 20 returningDb))"
proof -
  let ?d = "openDonation\<lparr>status := PICKED_UP, receiverId := Some 20,
                         returnReason := Some ''item damaged''\<rparr>"
  let ?p = "freshProgress\<lparr>pickupConfirmedByDonor := True, pickupConfirmedByReceiver := True,
                         returnSignaledByReceiver := True\<rparr>"
  have d: "donations returningDb 0 = Some ?d" and p: "progress returningDb 0 = Some ?p"
    by (simp_all add: returningDb_def)
  have sg: "returnSignaledByReceiver ?p" by simp
  have donor: "(10 = donorId ?d \<and> \<not> returnConfirmedByReceiver ?p)
         \<or> (10 \<noteq> donorId ?d \<and> receiverId ?d = Some 10 \<and> \<not> returnConfirmedByDonor ?p)"
    by (simp add: openDonation_def freshProgress_def)
  have receiver: "(20 = donorId ?d \<and> \<not> returnConfirmedByReceiver ?p)
         \<or> (20 \<noteq> donorId ?d \<and> receiverId ?d = Some 20 \<and> \<not> returnConfirmedByDonor ?p)"
    by (simp add: openDonation_def freshProgress_def)
  show ?thesis
    using C9_confirmReturn_idempotent[OF d p sg donor]
      C9_confirmReturn_idempotent[OF d p sg receiver]
    by simp
qed

subsection \<open>C10: who can signal a return\<close>

lemma signalReturn_effect:
  "snd (signalReturn i u reason s) = s
   \<or> (\<exists>d p. donations s i = Some d \<and> receiverId d = Some u \<and> progress s i = Some p
          \<and> pickupConfirmedByDonor p \<and> pickupConfirmedByReceiver p
          \<and> snd (signalReturn i u reason s)
              = s\<lparr>progress := (progress s)(i \<mapsto> p\<lparr>returnSignaledByReceiver := True\<rparr>),
                  donations := (donations s)(i \<mapsto> d\<lparr>returnReason := Some reason\<rparr>)\<rparr>)"
  by (auto simp: signalReturn_def repo_defs Let_def writeProgress_single split: option.splits)

lemma signal_kept_by_updateProgress:
  "flag returnSignaledByReceiver (snd (updateProgress i u updates s)) j
     = flag returnSignaledByReceiver s j"
proof -
  have keep: "returnSignaledByReceiver (writeProgress (asProgressData updates) p)
      = returnSignaledByReceiver p" for p
    by (simp add: writeProgress_def asProgressData_def orElse_def)
  from updateProgress_effect[of i u updates s] show ?thesis
  proof
    assume "snd (updateProgress i u updates s) = s"
    then show ?thesis by simp
  next
    assume "\<exists>d r p. donations s i = Some d \<and> receiverId d = Some r \<and> progress s i = Some p
         \<and> \<not> forbiddenFlags d u updates \<and> \<not> prematureFlags p updates
         \<and> snd (updateProgress i u updates s)
             = committed i d (writeProgress (asProgressData updates) p) s"
    then obtain d p where p: "progress s i = Some p"
      and e: "snd (updateProgress i u updates s)
             = committed i d (writeProgress (asProgressData updates) p) s"
      by blast
    show ?thesis
      unfolding e using p by (simp add: flag_def committed_def keep)
  qed
qed

lemma signal_not_raised:
  assumes "\<forall>i u reason. rq \<noteq> SignalReturn i u reason"
    and "flag returnSignaledByReceiver (perform rq s) j"
  shows "flag returnSignaledByReceiver s j"
proof (cases rq)
  case (CreateDonation u data)
  with assms(2) show ?thesis by (simp add: flag_def progress_createDonation)
next
  case (UpdateDonation i u data)
  with assms(2) show ?thesis by (simp add: flag_def progress_updateDonation)
next
  case (DeleteDonation i u)
  with assms(2) show ?thesis
    using progress_deleteDonation[of i u s j] by (auto simp: flag_def split: option.splits)
next
  case (ApplyForDonation i u)
  with assms(2) show ?thesis by (simp add: flag_def progress_applyForDonation)
next
  case (WithdrawCandidacy i u)
  with assms(2) show ?thesis by (simp add: flag_def progress_withdrawCandidacy)
next
  case (ChooseReceiver i rc u)
  with assms(2) show ?thesis
    using progress_chooseReceiver[of i rc u s j]
    by (auto simp: flag_def freshProgress_def split: option.splits)
next
  case (CancelReceiving i u)
  with assms(2) show ?thesis
    using progress_cancelReceiving[of i u s j] by (auto simp: flag_def split: option.splits)
next
  case (UpdateProgress i u updates)
  with assms(2) show ?thesis by (simp add: signal_kept_by_updateProgress)
next
  case (SignalReturn i u reason)
  with assms(1) show ?thesis by simp
next
  case (ConfirmReturn i u)
  with assms(2) show ?thesis
    using progress_confirmReturn[of i u s j]
    by (auto simp: flag_def keeps_def split: option.splits)
qed

text \<open>
  C10: \<^verbatim>\<open>updateProgress\<close> never changes \<^verbatim>\<open>returnSignaledByReceiver\<close> (its \<^verbatim>\<open>updates\<close> shape, the
  record \<open>progressUpdates\<close>, has no such key). Whenever a request makes the flag of a
  donation true, the request is \<^verbatim>\<open>signalReturn\<close> on that donation by its receiver, both
  pickup flags were already true, and afterwards the donation holds the reason given.
\<close>

theorem C10_only_signalReturn_signals:
  "flag returnSignaledByReceiver (snd (updateProgress i u updates s)) j
     = flag returnSignaledByReceiver s j
   \<and> (\<not> flag returnSignaledByReceiver s j \<and> flag returnSignaledByReceiver (perform rq s) j
      \<longrightarrow> (\<exists>actor reason d p.
             rq = SignalReturn j actor reason
             \<and> donations s j = Some d \<and> receiverId d = Some actor
             \<and> progress s j = Some p
             \<and> pickupConfirmedByDonor p \<and> pickupConfirmedByReceiver p
             \<and> map_option returnReason (donations (perform rq s) j) = Some (Some reason)))"
proof (intro conjI impI)
  show "flag returnSignaledByReceiver (snd (updateProgress i u updates s)) j
     = flag returnSignaledByReceiver s j"
    by (rule signal_kept_by_updateProgress)
next
  assume a: "\<not> flag returnSignaledByReceiver s j \<and> flag returnSignaledByReceiver (perform rq s) j"
  with signal_not_raised[of rq s j]
  obtain k actor reason where rq: "rq = SignalReturn k actor reason" by blast
  from a rq have changed: "snd (signalReturn k actor reason s) \<noteq> s" by auto
  with signalReturn_effect[of k actor reason s]
  obtain d p where e: "donations s k = Some d" "receiverId d = Some actor"
    "progress s k = Some p" "pickupConfirmedByDonor p" "pickupConfirmedByReceiver p"
    "snd (signalReturn k actor reason s)
       = s\<lparr>progress := (progress s)(k \<mapsto> p\<lparr>returnSignaledByReceiver := True\<rparr>),
           donations := (donations s)(k \<mapsto> d\<lparr>returnReason := Some reason\<rparr>)\<rparr>"
    by blast
  have "j = k"
    using a rq e(6) by (auto simp: flag_def split: if_splits)
  with rq e show "\<exists>actor reason d p.
             rq = SignalReturn j actor reason
             \<and> donations s j = Some d \<and> receiverId d = Some actor
             \<and> progress s j = Some p
             \<and> pickupConfirmedByDonor p \<and> pickupConfirmedByReceiver p
             \<and> map_option returnReason (donations (perform rq s) j) = Some (Some reason)"
    by simp
qed

theorem C10_only_signalReturn_signals_witness:
  "\<not> flag returnSignaledByReceiver pickedUpDb 0
   \<and> flag returnSignaledByReceiver (perform (SignalReturn 0 20 ''item damaged'') pickedUpDb) 0
   \<and> receiverId (openDonation\<lparr>status := PICKED_UP, receiverId := Some 20\<rparr>) = Some 20
   \<and> map_option returnReason
        (donations (perform (SignalReturn 0 20 ''item damaged'') pickedUpDb) 0)
       = Some (Some ''item damaged'')
   \<and> flag returnSignaledByReceiver
        (snd (updateProgress 0 10 (noUpdates\<lparr>upd_returnConfirmedByDonor := Some True\<rparr>)
                returningDb)) 0
       = flag returnSignaledByReceiver returningDb 0"
proof -
  have a: "\<not> flag returnSignaledByReceiver pickedUpDb 0
      \<and> flag returnSignaledByReceiver (perform (SignalReturn 0 20 ''item damaged'') pickedUpDb) 0"
    unfolding returningDb_run by (simp add: flag_def run_defs)
  show ?thesis
    using C10_only_signalReturn_signals[of 0 10
        "noUpdates\<lparr>upd_returnConfirmedByDonor := Some True\<rparr>" returningDb 0
        "SignalReturn 0 20 ''item damaged''"]
      C10_only_signalReturn_signals[of 0 10
        "noUpdates\<lparr>upd_returnConfirmedByDonor := Some True\<rparr>" pickedUpDb 0
        "SignalReturn 0 20 ''item damaged''"]
      a pickedUpDb_facts(1)
    by auto
qed

end
